theory Spec2Isabelle
  imports Complex_Main
begin

section \<open>Flight-route planner: data model\<close>

text \<open>
  The route planner of the repository (the classes \<^verbatim>\<open>City\<close>, \<^verbatim>\<open>Edge\<close>,
  \<^verbatim>\<open>Plane\<close>, \<^verbatim>\<open>Graph\<close> and \<^verbatim>\<open>RoutePlanner\<close>). Python floats are read as exact real numbers
  and Python ints as unbounded integers. Every exception the interpreter can raise on the way
  is a value of \<open>py_error\<close>; a function that can raise returns \<open>py_error + 'a\<close>.
\<close>

datatype py_error = TypeError | ZeroDivisionError | ValueError | IndexError

text \<open>\<^verbatim>\<open>float('inf')\<close> next to the finite floats.\<close>

datatype pyfloat = Finite real | PosInf

record City =
  name :: string
  lat :: real
  lon :: real
  has_fuel :: bool

record Edge =
  city1 :: City
  city2 :: City
  distance_km :: real
  headwind :: bool
  fairwind :: bool
  closed_e :: bool

record Plane =
  tank_capacity :: int
  fuel_consumption :: real
  cruise_speed :: int

record Graph =
  cities :: "string \<rightharpoonup> City"
  edges :: "Edge list"

record RoutePlanner =
  graph :: Graph
  plane :: Plane

text \<open>\<^verbatim>\<open>City.__eq__\<close> and \<^verbatim>\<open>City.__hash__\<close> look at the name only.\<close>

definition city_eq :: "City \<Rightarrow> City \<Rightarrow> bool" where
  "city_eq a b = (name a = name b)"

definition get_other_city :: "Edge \<Rightarrow> City \<Rightarrow> py_error + City" where
  "get_other_city edge city =
     (if city_eq city (city1 edge) then Inr (city2 edge)
      else if city_eq city (city2 edge) then Inr (city1 edge)
      else Inl ValueError)"

definition add_city :: "Graph \<Rightarrow> City \<Rightarrow> Graph" where
  "add_city g city = g\<lparr>cities := (cities g)(name city \<mapsto> city)\<rparr>"

definition add_edge :: "Graph \<Rightarrow> Edge \<Rightarrow> Graph" where
  "add_edge g edge = g\<lparr>edges := edges g @ [edge]\<rparr>"

definition get_edges_from_city :: "Graph \<Rightarrow> City \<Rightarrow> Edge list" where
  "get_edges_from_city g city =
     filter (\<lambda>edge. city_eq (city1 edge) city \<or> city_eq (city2 edge) city) (edges g)"

section \<open>Numeric helpers of the Python runtime\<close>

definition radians :: "real \<Rightarrow> real" where
  "radians x = x * pi / 180"

text \<open>\<^verbatim>\<open>math.sqrt\<close> raises \<^verbatim>\<open>ValueError\<close> on a negative argument.\<close>

definition py_sqrt :: "real \<Rightarrow> py_error + real" where
  "py_sqrt x = (if x < 0 then Inl ValueError else Inr (sqrt x))"

text \<open>\<^verbatim>\<open>math.atan2(y, x)\<close>: the angle of the point \<open>(x, y)\<close>, in \<open>(-pi, pi]\<close>.\<close>

definition atan2 :: "real \<Rightarrow> real \<Rightarrow> real" where
  "atan2 y x =
     (if 0 < x then arctan (y / x)
      else if x < 0 then (if 0 \<le> y then arctan (y / x) + pi else arctan (y / x) - pi)
      else if 0 < y then pi / 2
      else if y < 0 then - (pi / 2)
      else 0)"

text \<open>\<^verbatim>\<open>int(x)\<close> on a float truncates toward zero.\<close>

definition py_int :: "real \<Rightarrow> int" where
  "py_int x = (if 0 \<le> x then \<lfloor>x\<rfloor> else \<lceil>x\<rceil>)"

text \<open>\<^verbatim>\<open>round(x)\<close> rounds to the nearest integer, a tie to the even one;
  \<^verbatim>\<open>round(x, 2)\<close> does the same at two decimals.\<close>

definition py_round :: "real \<Rightarrow> int" where
  "py_round x =
     (let fl = \<lfloor>x\<rfloor>; r = x - of_int fl
      in if r < 1 / 2 then fl
         else if 1 / 2 < r then fl + 1
         else if even fl then fl else fl + 1)"

definition py_round2 :: "real \<Rightarrow> real" where
  "py_round2 x = of_int (py_round (x * 100)) / 100"

text \<open>True division \<^verbatim>\<open>a / b\<close> of an int by an int.\<close>

definition py_truediv :: "int \<Rightarrow> int \<Rightarrow> py_error + real" where
  "py_truediv a b = (if b = 0 then Inl ZeroDivisionError else Inr (of_int a / of_int b))"

section \<open>Heuristic distance\<close>

definition haversine_a :: "City \<Rightarrow> City \<Rightarrow> real" where
  "haversine_a c1 c2 =
     (let lat1_rad = radians (lat c1);
          lon1_rad = radians (lon c1);
          lat2_rad = radians (lat c2);
          lon2_rad = radians (lon c2);
          dlat = lat2_rad - lat1_rad;
          dlon = lon2_rad - lon1_rad
      in (sin (dlat / 2))\<^sup>2 + cos lat1_rad * cos lat2_rad * (sin (dlon / 2))\<^sup>2)"

definition haversine_distance :: "City \<Rightarrow> City \<Rightarrow> py_error + int" where
  "haversine_distance c1 c2 =
     (let R = 6371;
          a = haversine_a c1 c2
      in case py_sqrt a of
           Inl e \<Rightarrow> Inl e
         | Inr sa \<Rightarrow>
             (case py_sqrt (1 - a) of
                Inl e \<Rightarrow> Inl e
              | Inr sb \<Rightarrow>
                  (let c = 2 * atan2 sa sb;
                       distance = R * c
                   in Inr \<lceil>distance\<rceil>)))"

section \<open>Edge cost evaluator\<close>

text \<open>The multipliers and the two local variables \<^verbatim>\<open>effective_speed\<close> and
  \<^verbatim>\<open>effective_consumption\<close> of \<^verbatim>\<open>calculate_edge_time_and_fuel\<close>, named so that
  statements can refer to them. The division comes before the fuel test, as in the source.\<close>

definition wind_multipliers :: "Edge \<Rightarrow> real \<times> real" where
  "wind_multipliers edge =
     (if headwind edge then (0.80, 1.20)
      else if fairwind edge then (1.10, 0.90)
      else (1.00, 1.00))"

definition effective_speed :: "Plane \<Rightarrow> Edge \<Rightarrow> real" where
  "effective_speed p edge = of_int (cruise_speed p) * fst (wind_multipliers edge)"

definition effective_consumption :: "Plane \<Rightarrow> Edge \<Rightarrow> real" where
  "effective_consumption p edge = fuel_consumption p * snd (wind_multipliers edge)"

definition calculate_edge_time_and_fuel ::
  "Plane \<Rightarrow> Edge \<Rightarrow> int \<Rightarrow> py_error + (pyfloat \<times> int)" where
  "calculate_edge_time_and_fuel p edge current_fuel =
     (if closed_e edge then Inr (PosInf, 0)
      else if effective_speed p edge = 0 then Inl ZeroDivisionError
      else
        (let time_hours = distance_km edge / effective_speed p edge;
             fuel_needed = distance_km edge * effective_consumption p edge
         in if of_int current_fuel < fuel_needed then Inr (PosInf, 0)
            else Inr (Finite (of_int \<lceil>time_hours * 10\<rceil> / 10), py_int fuel_needed)))"

section \<open>The frontier: a binary heap of tuples\<close>

text \<open>
  A frontier entry is the tuple
  \<^verbatim>\<open>(f_score, g_score, city, fuel, path, refuel_count)\<close>.
  Python compares tuples lexicographically: the first position where the two differ
  (by \<^verbatim>\<open>==\<close>) is compared with \<^verbatim>\<open><\<close>. \<^verbatim>\<open>City\<close> defines
  \<^verbatim>\<open>__eq__\<close> but no \<^verbatim>\<open>__lt__\<close>, so \<^verbatim>\<open><\<close> on two cities raises
  \<^verbatim>\<open>TypeError\<close>.
\<close>

type_synonym entry = "real \<times> real \<times> City \<times> int \<times> City list \<times> int"

fun path_lt :: "City list \<Rightarrow> City list \<Rightarrow> py_error + bool" where
  "path_lt [] [] = Inr False"
| "path_lt [] (y # ys) = Inr True"
| "path_lt (x # xs) [] = Inr False"
| "path_lt (x # xs) (y # ys) = (if city_eq x y then path_lt xs ys else Inl TypeError)"

definition entry_lt :: "entry \<Rightarrow> entry \<Rightarrow> py_error + bool" where
  "entry_lt x y =
     (case x of (f1, g1, c1, fuel1, p1, r1) \<Rightarrow>
      case y of (f2, g2, c2, fuel2, p2, r2) \<Rightarrow>
        if f1 \<noteq> f2 then Inr (f1 < f2)
        else if g1 \<noteq> g2 then Inr (g1 < g2)
        else if \<not> city_eq c1 c2 then Inl TypeError
        else if fuel1 \<noteq> fuel2 then Inr (fuel1 < fuel2)
        else if map name p1 \<noteq> map name p2 then path_lt p1 p2
        else Inr (r1 < r2))"

text \<open>
  \<^verbatim>\<open>heapq\<close> of the standard library, over a comparison \<open>lt\<close> that may raise:
  \<^verbatim>\<open>_siftdown\<close>, \<^verbatim>\<open>_siftup\<close>, \<^verbatim>\<open>heappush\<close> and \<^verbatim>\<open>heappop\<close>, comparison
  for comparison.
\<close>

function siftdown_loop ::
  "('a \<Rightarrow> 'a \<Rightarrow> py_error + bool) \<Rightarrow> 'a list \<Rightarrow> nat \<Rightarrow> nat \<Rightarrow> 'a \<Rightarrow> py_error + 'a list" where
  "siftdown_loop lt heap startpos pos newitem =
     (if startpos < pos then
        (let parentpos = (pos - 1) div 2;
             parent = heap ! parentpos
         in case lt newitem parent of
              Inl e \<Rightarrow> Inl e
            | Inr b \<Rightarrow>
                if b then siftdown_loop lt (heap[pos := parent]) startpos parentpos newitem
                else Inr (heap[pos := newitem]))
      else Inr (heap[pos := newitem]))"
  by pat_completeness auto
termination
  by (relation "measure (\<lambda>(lt, heap, startpos, pos, newitem). pos)") auto

definition siftdown ::
  "('a \<Rightarrow> 'a \<Rightarrow> py_error + bool) \<Rightarrow> 'a list \<Rightarrow> nat \<Rightarrow> nat \<Rightarrow> py_error + 'a list" where
  "siftdown lt heap startpos pos = siftdown_loop lt heap startpos pos (heap ! pos)"

text \<open>The child that \<^verbatim>\<open>_siftup\<close> moves up: the right one unless the left one is smaller.
  The loop variable \<^verbatim>\<open>childpos\<close> is \<^verbatim>\<open>2*pos + 1\<close> at the head of every turn, so the
  loop below carries \<open>pos\<close> alone.\<close>

definition smaller_child ::
  "('a \<Rightarrow> 'a \<Rightarrow> py_error + bool) \<Rightarrow> 'a list \<Rightarrow> nat \<Rightarrow> nat \<Rightarrow> py_error + nat" where
  "smaller_child lt heap endpos childpos =
     (let rightpos = childpos + 1
      in if rightpos < endpos then
           (case lt (heap ! childpos) (heap ! rightpos) of
              Inl e \<Rightarrow> Inl e
            | Inr b \<Rightarrow> Inr (if \<not> b then rightpos else childpos))
         else Inr childpos)"

function siftup_loop ::
  "('a \<Rightarrow> 'a \<Rightarrow> py_error + bool) \<Rightarrow> 'a list \<Rightarrow> nat \<Rightarrow> nat \<Rightarrow> py_error + ('a list \<times> nat)" where
  "siftup_loop lt heap endpos pos =
     (let childpos = 2 * pos + 1
      in if childpos < endpos then
           (case smaller_child lt heap endpos childpos of
              Inl e \<Rightarrow> Inl e
            | Inr cp \<Rightarrow> siftup_loop lt (heap[pos := heap ! cp]) endpos cp)
         else Inr (heap, pos))"
  by pat_completeness auto
termination
  by (relation "measure (\<lambda>(lt, heap, endpos, pos). endpos - pos)")
     (auto simp: smaller_child_def Let_def split: if_splits sum.splits)

definition siftup ::
  "('a \<Rightarrow> 'a \<Rightarrow> py_error + bool) \<Rightarrow> 'a list \<Rightarrow> nat \<Rightarrow> py_error + 'a list" where
  "siftup lt heap pos =
     (let endpos = length heap;
          startpos = pos;
          newitem = heap ! pos
      in case siftup_loop lt heap endpos pos of
           Inl e \<Rightarrow> Inl e
         | Inr (heap', pos') \<Rightarrow> siftdown lt (heap'[pos' := newitem]) startpos pos')"

definition heappush ::
  "('a \<Rightarrow> 'a \<Rightarrow> py_error + bool) \<Rightarrow> 'a list \<Rightarrow> 'a \<Rightarrow> py_error + 'a list" where
  "heappush lt heap item = siftdown lt (heap @ [item]) 0 (length heap)"

definition heappop ::
  "('a \<Rightarrow> 'a \<Rightarrow> py_error + bool) \<Rightarrow> 'a list \<Rightarrow> py_error + ('a \<times> 'a list)" where
  "heappop lt heap =
     (if heap = [] then Inl IndexError
      else
        (let lastelt = last heap;
             heap' = butlast heap
         in if heap' \<noteq> [] then
              (let returnitem = heap' ! 0
               in case siftup lt (heap'[0 := lastelt]) 0 of
                    Inl e \<Rightarrow> Inl e
                  | Inr heap'' \<Rightarrow> Inr (returnitem, heap''))
            else Inr (lastelt, heap')))"

section \<open>Result construction\<close>

record Itinerary =
  route :: "string list"
  total_time :: real
  refuel_stops :: "string list"
  total_distance :: int
  refuel_count :: int

text \<open>The dict that \<^verbatim>\<open>a_star_search\<close> returns: an \<^verbatim>\<open>"error"\<close> entry or an itinerary.\<close>

datatype search_result = Error string | Route Itinerary

text \<open>The inner loop of \<^verbatim>\<open>_build_result\<close>: the first edge, in declaration order, that
  joins the two cities adds its distance and ends the scan; no match adds nothing.\<close>

fun first_match_distance :: "City \<Rightarrow> City \<Rightarrow> Edge list \<Rightarrow> real" where
  "first_match_distance c1 c2 [] = 0"
| "first_match_distance c1 c2 (edge # rest) =
     (if (city_eq (city1 edge) c1 \<and> city_eq (city2 edge) c2) \<or>
         (city_eq (city1 edge) c2 \<and> city_eq (city2 edge) c1)
      then distance_km edge
      else first_match_distance c1 c2 rest)"

text \<open>The outer loop over consecutive pairs of the path, with its accumulator.\<close>

fun walk_distance :: "Edge list \<Rightarrow> City list \<Rightarrow> real \<Rightarrow> real" where
  "walk_distance es (c1 # c2 # rest) dist_acc =
     walk_distance es (c2 # rest) (dist_acc + first_match_distance c1 c2 es)"
| "walk_distance es [c] dist_acc = dist_acc"
| "walk_distance es [] dist_acc = dist_acc"

text \<open>The loop over \<^verbatim>\<open>path[:-1]\<close> that appends the names of the cities with fuel.\<close>

fun collect_refuel_cities :: "City list \<Rightarrow> string list \<Rightarrow> string list" where
  "collect_refuel_cities [] refuel_cities = refuel_cities"
| "collect_refuel_cities (city # rest) refuel_cities =
     collect_refuel_cities rest
       (if has_fuel city then refuel_cities @ [name city] else refuel_cities)"

definition build_result :: "RoutePlanner \<Rightarrow> City list \<Rightarrow> real \<Rightarrow> int \<Rightarrow> search_result" where
  "build_result rp path_list time_total refuels =
     (let distance_total = walk_distance (edges (graph rp)) path_list 0;
          refuel_cities = collect_refuel_cities (butlast path_list) []
      in Route \<lparr>route = map name path_list,
                total_time = py_round2 time_total,
                refuel_stops = refuel_cities,
                total_distance = py_round distance_total,
                refuel_count = refuels\<rparr>)"

section \<open>Route search\<close>

text \<open>The dict \<^verbatim>\<open>visited\<close>, keyed by (city, fuel); a city hashes and compares by name.\<close>

type_synonym visited = "string \<times> int \<rightharpoonup> real"

type_synonym config = "entry list \<times> visited"

text \<open>Lines 143 to 151: fuel and time on arrival, with the mandatory refuel.\<close>

definition arrive ::
  "Plane \<Rightarrow> City \<Rightarrow> int \<Rightarrow> real \<Rightarrow> int \<Rightarrow> real \<Rightarrow> int \<Rightarrow> real \<times> int \<times> int" where
  "arrive p next_city current_fuel current_g refuels time_needed fuel_consumed =
     (let new_fuel = current_fuel - fuel_consumed;
          new_fuel = \<lfloor>(of_int new_fuel :: real)\<rfloor>;
          new_g = current_g + time_needed;
          new_refuel_count = refuels
      in if has_fuel next_city \<and> new_fuel < tank_capacity p
         then (new_g + 0.5, tank_capacity p, new_refuel_count + 1)
         else (new_g, new_fuel, new_refuel_count))"

text \<open>The body of the loop over the edges of the current city.\<close>

definition expand_edge ::
  "RoutePlanner \<Rightarrow> City \<Rightarrow> entry \<Rightarrow> Edge \<Rightarrow> config \<Rightarrow> py_error + config" where
  "expand_edge rp target_city cur edge cfg =
     (case cur of (current_f, current_g, current_city, current_fuel, current_path, refuels) \<Rightarrow>
     (case cfg of (open_set, visited) \<Rightarrow>
     (case get_other_city edge current_city of
        Inl e \<Rightarrow> Inl e
      | Inr next_city \<Rightarrow>
     (case calculate_edge_time_and_fuel (plane rp) edge current_fuel of
        Inl e \<Rightarrow> Inl e
      | Inr (time_needed, fuel_consumed) \<Rightarrow>
     (case time_needed of
        PosInf \<Rightarrow> Inr (open_set, visited)
      | Finite t \<Rightarrow>
     (case arrive (plane rp) next_city current_fuel current_g refuels t fuel_consumed of
        (new_g, new_fuel, new_refuel_count) \<Rightarrow>
      (let visited_key = (name next_city, new_fuel)
       in if (case visited visited_key of None \<Rightarrow> False | Some v \<Rightarrow> v \<le> new_g)
          then Inr (open_set, visited)
          else
            (let visited' = visited(visited_key \<mapsto> new_g)
             in (case haversine_distance next_city target_city of
                   Inl e \<Rightarrow> Inl e
                 | Inr d \<Rightarrow>
                (case py_truediv d (cruise_speed (plane rp)) of
                   Inl e \<Rightarrow> Inl e
                 | Inr h_score \<Rightarrow>
                (let f_score = new_g + h_score;
                     new_path = current_path @ [next_city]
                 in (case heappush entry_lt open_set
                            (f_score, new_g, next_city, new_fuel, new_path, new_refuel_count) of
                       Inl e \<Rightarrow> Inl e
                     | Inr open_set' \<Rightarrow> Inr (open_set', visited')))))))))))))"

fun expand_edges ::
  "RoutePlanner \<Rightarrow> City \<Rightarrow> entry \<Rightarrow> Edge list \<Rightarrow> config \<Rightarrow> py_error + config" where
  "expand_edges rp target_city cur [] cfg = Inr cfg"
| "expand_edges rp target_city cur (edge # rest) cfg =
     (case expand_edge rp target_city cur edge cfg of
        Inl e \<Rightarrow> Inl e
      | Inr cfg' \<Rightarrow> expand_edges rp target_city cur rest cfg')"

text \<open>One turn of the \<^verbatim>\<open>while open_set\<close> loop: it raises, returns a result, or leaves
  the next frontier and visited map.\<close>

definition search_step ::
  "RoutePlanner \<Rightarrow> City \<Rightarrow> config \<Rightarrow> py_error + (search_result + config)" where
  "search_step rp target_city cfg =
     (case cfg of (open_set, visited) \<Rightarrow>
      if open_set = [] then Inr (Inl (Error ''No path found''))
      else
        (case heappop entry_lt open_set of
           Inl e \<Rightarrow> Inl e
         | Inr (cur, open_set') \<Rightarrow>
           (case cur of (current_f, current_g, current_city, current_fuel, current_path, refuels) \<Rightarrow>
              if city_eq current_city target_city
              then Inr (Inl (build_result rp current_path current_g refuels))
              else
                (case expand_edges rp target_city cur
                        (get_edges_from_city (graph rp) current_city) (open_set', visited) of
                   Inl e \<Rightarrow> Inl e
                 | Inr cfg' \<Rightarrow> Inr (Inr cfg')))))"

text \<open>The loop itself may run forever on some inputs, so it is a partial function:
  \<open>None\<close> is a run that never returns.\<close>

partial_function (option) search_loop ::
  "RoutePlanner \<Rightarrow> City \<Rightarrow> config \<Rightarrow> (py_error + search_result) option" where
  "search_loop rp target_city cfg =
     (case search_step rp target_city cfg of
        Inl e \<Rightarrow> Some (Inl e)
      | Inr (Inl res) \<Rightarrow> Some (Inr res)
      | Inr (Inr cfg') \<Rightarrow> search_loop rp target_city cfg')"

definition initial_config :: "Plane \<Rightarrow> City \<Rightarrow> real \<Rightarrow> config" where
  "initial_config p start_city h_score =
     (let initial_fuel = tank_capacity p;
          g_score = 0;
          f_score = g_score + h_score
      in ([(f_score, g_score, start_city, initial_fuel, [start_city], 0)],
          Map.empty((name start_city, initial_fuel) \<mapsto> g_score)))"

definition a_star_search ::
  "RoutePlanner \<Rightarrow> string \<Rightarrow> string \<Rightarrow> (py_error + search_result) option" where
  "a_star_search rp start_city_name target_city_name =
     (case cities (graph rp) start_city_name of
        None \<Rightarrow> Some (Inr (Error ''City not found''))
      | Some start_city \<Rightarrow>
     (case cities (graph rp) target_city_name of
        None \<Rightarrow> Some (Inr (Error ''City not found''))
      | Some target_city \<Rightarrow>
     (case haversine_distance start_city target_city of
        Inl e \<Rightarrow> Some (Inl e)
      | Inr d \<Rightarrow>
     (case py_truediv d (cruise_speed (plane rp)) of
        Inl e \<Rightarrow> Some (Inl e)
      | Inr h_score \<Rightarrow>
          search_loop rp target_city (initial_config (plane rp) start_city h_score)))))"

text \<open>The configurations a search passes through, loop turn by loop turn.\<close>

definition continues :: "RoutePlanner \<Rightarrow> City \<Rightarrow> config \<Rightarrow> config \<Rightarrow> bool" where
  "continues rp target_city cfg cfg' = (search_step rp target_city cfg = Inr (Inr cfg'))"

inductive reachable :: "RoutePlanner \<Rightarrow> City \<Rightarrow> City \<Rightarrow> config \<Rightarrow> bool"
  for rp :: RoutePlanner and start_city :: City and target_city :: City where
  reachable_init:
    "haversine_distance start_city target_city = Inr d \<Longrightarrow>
     py_truediv d (cruise_speed (plane rp)) = Inr h_score \<Longrightarrow>
     reachable rp start_city target_city (initial_config (plane rp) start_city h_score)"
| reachable_step:
    "reachable rp start_city target_city cfg \<Longrightarrow>
     continues rp target_city cfg cfg' \<Longrightarrow>
     reachable rp start_city target_city cfg'"

declare siftdown_loop.simps [simp del] siftup_loop.simps [simp del]

section \<open>The great-circle distance, as the haversine formula states it\<close>

text \<open>
  The haversine of the central angle between two points is the haversine of the difference
  in latitude plus the product of the cosines of the latitudes and the haversine of the
  difference in longitude; the distance is the radius times the central angle.
\<close>

definition hav :: "real \<Rightarrow> real" where
  "hav x = (sin (x / 2))\<^sup>2"

definition central_angle :: "City \<Rightarrow> City \<Rightarrow> real" where
  "central_angle c1 c2 =
     2 * arcsin (sqrt (hav (radians (lat c2) - radians (lat c1)) +
                       cos (radians (lat c1)) * cos (radians (lat c2)) *
                       hav (radians (lon c2) - radians (lon c1))))"

definition great_circle_km :: "City \<Rightarrow> City \<Rightarrow> real" where
  "great_circle_km c1 c2 = 6371 * central_angle c1 c2"

section \<open>The itinerary, as the specification words it\<close>

text \<open>
  The distance of a path is the sum, over its consecutive pairs, of the distance of the
  first connection in declaration order that joins the pair (nothing when none does); the
  refuel stops are the names of the cities with fuel among all but the last.
\<close>

definition joins :: "Edge \<Rightarrow> City \<Rightarrow> City \<Rightarrow> bool" where
  "joins e a b =
     ((name (city1 e) = name a \<and> name (city2 e) = name b) \<or>
      (name (city1 e) = name b \<and> name (city2 e) = name a))"

definition pair_distance :: "Edge list \<Rightarrow> City \<Rightarrow> City \<Rightarrow> real" where
  "pair_distance es a b =
     (case find (\<lambda>e. joins e a b) es of None \<Rightarrow> 0 | Some e \<Rightarrow> distance_km e)"

definition path_distance :: "Edge list \<Rightarrow> City list \<Rightarrow> real" where
  "path_distance es cs = sum_list (map (\<lambda>(a, b). pair_distance es a b) (zip cs (tl cs)))"

definition fuel_capable_stops :: "City list \<Rightarrow> string list" where
  "fuel_capable_stops cs = map name (filter has_fuel (butlast cs))"

section \<open>The demonstration topology\<close>

definition moscow :: City where
  "moscow = \<lparr>name = ''Moscow'', lat = 55.7558, lon = 37.6173, has_fuel = True\<rparr>"

definition spb :: City where
  "spb = \<lparr>name = ''St Petersburg'', lat = 59.9343, lon = 30.3351, has_fuel = True\<rparr>"

definition kazan :: City where
  "kazan = \<lparr>name = ''Kazan'', lat = 55.8304, lon = 49.0661, has_fuel = True\<rparr>"

definition sochi :: City where
  "sochi = \<lparr>name = ''Sochi'', lat = 43.5855, lon = 39.7231, has_fuel = False\<rparr>"

definition samara :: City where
  "samara = \<lparr>name = ''Samara'', lat = 53.1959, lon = 50.1002, has_fuel = True\<rparr>"

text \<open>The constructor of \<^verbatim>\<open>Edge\<close> with its three flags.\<close>

definition Edge_init :: "City \<Rightarrow> City \<Rightarrow> real \<Rightarrow> bool \<Rightarrow> bool \<Rightarrow> bool \<Rightarrow> Edge" where
  "Edge_init c1 c2 d hw fw cl =
     \<lparr>city1 = c1, city2 = c2, distance_km = d, headwind = hw, fairwind = fw, closed_e = cl\<rparr>"

definition empty_graph :: Graph where
  "empty_graph = \<lparr>cities = Map.empty, edges = []\<rparr>"

definition create_test_graph :: Graph where
  "create_test_graph =
     (let g = empty_graph;
          g = add_city g moscow;
          g = add_city g spb;
          g = add_city g kazan;
          g = add_city g sochi;
          g = add_city g samara;
          g = add_edge g (Edge_init moscow spb 650 False True False);
          g = add_edge g (Edge_init moscow kazan 720 False False False);
          g = add_edge g (Edge_init moscow sochi 1360 True False False);
          g = add_edge g (Edge_init kazan samara 450 False False False);
          g = add_edge g (Edge_init spb kazan 1150 False False True);
          g = add_edge g (Edge_init samara sochi 1250 False False False)
      in g)"

definition demo_plane :: Plane where
  "demo_plane = \<lparr>tank_capacity = 16000, fuel_consumption = 2.7, cruise_speed = 841\<rparr>"

definition demo_planner :: RoutePlanner where
  "demo_planner = \<lparr>graph = create_test_graph, plane = demo_plane\<rparr>"

section \<open>A symmetric four-city topology\<close>

text \<open>
  Two intermediate cities mirror each other across the line from the start to the target,
  so both routes cost the same and both intermediate states get the same priority.
\<close>

definition tie_A :: City where "tie_A = \<lparr>name = ''A'', lat = 0, lon = 0, has_fuel = False\<rparr>"
definition tie_B :: City where "tie_B = \<lparr>name = ''B'', lat = 1, lon = 1, has_fuel = False\<rparr>"
definition tie_C :: City where "tie_C = \<lparr>name = ''C'', lat = - 1, lon = 1, has_fuel = False\<rparr>"
definition tie_D :: City where "tie_D = \<lparr>name = ''D'', lat = 0, lon = 2, has_fuel = False\<rparr>"

definition tie_edge :: "City \<Rightarrow> City \<Rightarrow> Edge" where
  "tie_edge a b = Edge_init a b 100 False False False"

definition tie_graph :: Graph where
  "tie_graph =
     (let g = empty_graph;
          g = add_city g tie_A;
          g = add_city g tie_B;
          g = add_city g tie_C;
          g = add_city g tie_D;
          g = add_edge g (tie_edge tie_A tie_B);
          g = add_edge g (tie_edge tie_A tie_C);
          g = add_edge g (tie_edge tie_B tie_D);
          g = add_edge g (tie_edge tie_C tie_D)
      in g)"

definition tie_plane :: Plane where
  "tie_plane = \<lparr>tank_capacity = 1000, fuel_consumption = 1, cruise_speed = 100\<rparr>"

definition tie_planner :: RoutePlanner where
  "tie_planner = \<lparr>graph = tie_graph, plane = tie_plane\<rparr>"



section \<open>The heuristic distance never raises\<close>

text \<open>In exact arithmetic the argument of both square roots lies between 0 and 1, so
  \<^verbatim>\<open>math.sqrt\<close> cannot raise, and the two-argument arctangent is the arcsine of the
  haversine formula.\<close>

lemma half_alg:
  fixes A B u :: real
  shows "(1 - (A + B)) / 2 + A * ((1 - u) / 2) = (1 - (B + A * u)) / 2"
  by (simp add: field_simps)

lemma half_range:
  fixes x :: real
  shows "\<bar>x\<bar> \<le> 1 \<Longrightarrow> 0 \<le> (1 - x) / 2 \<and> (1 - x) / 2 \<le> 1"
  by auto

lemma hav_alt:
  fixes p1 p2 dl :: real
  shows "(sin ((p2 - p1) / 2))\<^sup>2 + cos p1 * cos p2 * (sin (dl / 2))\<^sup>2 =
         (1 - (sin p1 * sin p2 + cos p1 * cos p2 * cos dl)) / 2"
proof -
  have h: "(sin (x / 2))\<^sup>2 = (1 - cos x) / 2" for x :: real
    using cos_double_sin [of "x / 2"] by simp
  have "(sin ((p2 - p1) / 2))\<^sup>2 + cos p1 * cos p2 * (sin (dl / 2))\<^sup>2 =
        (1 - cos (p2 - p1)) / 2 + cos p1 * cos p2 * ((1 - cos dl) / 2)"
    by (simp only: h)
  also have "\<dots> = (1 - (sin p1 * sin p2 + cos p1 * cos p2 * cos dl)) / 2"
    using half_alg [of "cos p1 * cos p2" "sin p1 * sin p2" "cos dl"]
    by (simp add: cos_diff mult.commute)
  finally show ?thesis .
qed

lemma haversine_a_alt:
  "haversine_a c1 c2 =
     (1 - (sin (radians (lat c1)) * sin (radians (lat c2)) +
           cos (radians (lat c1)) * cos (radians (lat c2)) * cos (radians (lon c2) - radians (lon c1)))) / 2"
  unfolding haversine_a_def Let_def by (rule hav_alt)

lemma dot_bound:
  fixes s1 s2 c1 c2 u :: real
  assumes "s1\<^sup>2 + c1\<^sup>2 = 1" "s2\<^sup>2 + c2\<^sup>2 = 1" "\<bar>u\<bar> \<le> 1"
  shows "\<bar>s1 * s2 + c1 * c2 * u\<bar> \<le> 1"
proof -
  have a: "2 * \<bar>s1 * s2\<bar> \<le> s1\<^sup>2 + s2\<^sup>2"
    using sum_squares_bound [of "\<bar>s1\<bar>" "\<bar>s2\<bar>"] by (simp add: abs_mult)
  have b: "2 * \<bar>c1 * c2\<bar> \<le> c1\<^sup>2 + c2\<^sup>2"
    using sum_squares_bound [of "\<bar>c1\<bar>" "\<bar>c2\<bar>"] by (simp add: abs_mult)
  have c: "\<bar>c1 * c2 * u\<bar> \<le> \<bar>c1 * c2\<bar>"
    using assms(3) by (simp add: abs_mult mult_left_le)
  have "\<bar>s1 * s2 + c1 * c2 * u\<bar> \<le> \<bar>s1 * s2\<bar> + \<bar>c1 * c2 * u\<bar>"
    by (rule abs_triangle_ineq)
  with a b c assms(1,2) show ?thesis by linarith
qed

lemma haversine_a_range: "0 \<le> haversine_a c1 c2 \<and> haversine_a c1 c2 \<le> 1"
proof -
  have "\<bar>sin (radians (lat c1)) * sin (radians (lat c2)) +
           cos (radians (lat c1)) * cos (radians (lat c2)) * cos (radians (lon c2) - radians (lon c1))\<bar> \<le> 1"
    by (rule dot_bound) (simp_all add: abs_cos_le_one)
  then show ?thesis unfolding haversine_a_alt by (rule half_range)
qed

lemma atan2_sqrt:
  assumes "0 \<le> a" "a \<le> 1"
  shows "atan2 (sqrt a) (sqrt (1 - a)) = arcsin (sqrt a)"
proof (cases "a = 1")
  case True
  then show ?thesis by (simp add: atan2_def)
next
  case False
  with assms have lt: "a < 1" by simp
  then have pos: "0 < sqrt (1 - a)" by simp
  have x: "-1 < sqrt a" "sqrt a < 1"
    using assms lt by (auto intro: less_le_trans [of _ 0] simp: real_sqrt_lt_1_iff)
  have "arcsin (sqrt a) = arctan (sqrt a / sqrt (1 - (sqrt a)\<^sup>2))"
    by (rule arcsin_arctan [OF x])
  with assms pos show ?thesis by (simp add: atan2_def)
qed

lemma haversine_distance_total:
  "haversine_distance c1 c2 = Inr \<lceil>6371 * (2 * arcsin (sqrt (haversine_a c1 c2)))\<rceil>"
  using haversine_a_range [of c1 c2]
  by (simp add: haversine_distance_def py_sqrt_def Let_def atan2_sqrt not_less)

section \<open>What the heap operations keep in the frontier\<close>

lemma siftdown_loop_set:
  "pos < length heap \<Longrightarrow> siftdown_loop lt heap startpos pos newitem = Inr heap' \<Longrightarrow>
   set heap' \<subseteq> insert newitem (set heap)"
proof (induction lt heap startpos pos newitem rule: siftdown_loop.induct)
  case (1 lt heap startpos pos newitem)
  let ?parent = "heap ! ((pos - 1) div 2)"
  have upd: "set (heap[pos := newitem]) \<subseteq> insert newitem (set heap)"
    by (rule set_update_subset_insert)
  note unf = siftdown_loop.simps [of lt heap startpos pos newitem]
  show ?case
  proof (cases "startpos < pos")
    case False
    with "1.prems" upd show ?thesis by (simp add: unf Let_def)
  next
    case True
    have par: "?parent \<in> set heap" using "1.prems"(1) by (simp add: nth_mem)
    show ?thesis
    proof (cases "lt newitem ?parent")
      case (Inl e)
      with True "1.prems" show ?thesis by (simp add: unf Let_def)
    next
      case (Inr b)
      show ?thesis
      proof (cases b)
        case False
        with True Inr "1.prems" upd show ?thesis by (simp add: unf Let_def)
      next
        case bt: True
        from True Inr bt "1.prems"
        have rec: "siftdown_loop lt (heap[pos := ?parent]) startpos ((pos - 1) div 2) newitem = Inr heap'"
          by (simp add: unf Let_def)
        have len: "(pos - 1) div 2 < length (heap[pos := ?parent])"
          using "1.prems"(1) by simp
        have "set heap' \<subseteq> insert newitem (set (heap[pos := ?parent]))"
          using "1.IH" [OF True refl refl Inr bt len rec] .
        moreover have "set (heap[pos := ?parent]) \<subseteq> set heap"
          using set_update_subset_insert [of heap pos ?parent] par by auto
        ultimately show ?thesis by auto
      qed
    qed
  qed
qed

lemma heappush_set:
  "heappush lt heap item = Inr heap' \<Longrightarrow> set heap' \<subseteq> insert item (set heap)"
  using siftdown_loop_set [of "length heap" "heap @ [item]" lt 0 item heap']
  by (simp add: heappush_def siftdown_def)

lemma smaller_child_bound:
  "childpos < endpos \<Longrightarrow> smaller_child lt heap endpos childpos = Inr cp \<Longrightarrow>
   childpos \<le> cp \<and> cp < endpos"
  by (auto simp: smaller_child_def Let_def split: if_splits sum.splits)

lemma siftup_loop_set:
  "siftup_loop lt heap endpos pos = Inr (heap', pos') \<Longrightarrow> endpos = length heap \<Longrightarrow>
   pos < length heap \<Longrightarrow>
   set heap' \<subseteq> set heap \<and> length heap' = length heap \<and> pos' < length heap"
proof (induction lt heap endpos pos rule: siftup_loop.induct)
  case (1 lt heap endpos pos)
  note unf = siftup_loop.simps [of lt heap endpos pos]
  show ?case
  proof (cases "2 * pos + 1 < endpos")
    case False
    with "1.prems"(1) unf have "heap' = heap \<and> pos' = pos" by (simp add: Let_def)
    with "1.prems"(3) show ?thesis by simp
  next
    case True
    show ?thesis
    proof (cases "smaller_child lt heap endpos (2 * pos + 1)")
      case (Inl e)
      with True "1.prems"(1) unf show ?thesis by (simp add: Let_def)
    next
      case (Inr cp)
      from smaller_child_bound [OF True Inr] have cp: "cp < endpos" by simp
      from True Inr "1.prems"(1) unf
      have rec: "siftup_loop lt (heap[pos := heap ! cp]) endpos cp = Inr (heap', pos')"
        by (simp add: Let_def)
      have len: "endpos = length (heap[pos := heap ! cp])" using "1.prems"(2) by simp
      have cpl: "cp < length (heap[pos := heap ! cp])" using cp "1.prems"(2) by simp
      have "set heap' \<subseteq> set (heap[pos := heap ! cp]) \<and>
            length heap' = length (heap[pos := heap ! cp]) \<and> pos' < length (heap[pos := heap ! cp])"
        using "1.IH" [OF refl True Inr rec len cpl] .
      moreover have "set (heap[pos := heap ! cp]) \<subseteq> set heap"
        using set_update_subset_insert [of heap pos "heap ! cp"] cp "1.prems"(2)
        by (auto simp: nth_mem)
      ultimately show ?thesis by auto
    qed
  qed
qed

lemma siftup_set:
  assumes "pos < length heap" and "siftup lt heap pos = Inr heap'"
  shows "set heap' \<subseteq> set heap"
proof -
  from assms(2) obtain h1 p1 where
    loop: "siftup_loop lt heap (length heap) pos = Inr (h1, p1)" and
    down: "siftdown lt (h1[p1 := heap ! pos]) pos p1 = Inr heap'"
    by (auto simp: siftup_def Let_def split: sum.splits)
  from siftup_loop_set [OF loop refl assms(1)]
  have h1: "set h1 \<subseteq> set heap" "length h1 = length heap" "p1 < length heap" by auto
  let ?H = "h1[p1 := heap ! pos]"
  have H: "set ?H \<subseteq> set heap"
    using set_update_subset_insert [of h1 p1 "heap ! pos"] h1(1) assms(1) by (auto simp: nth_mem)
  have "set heap' \<subseteq> insert (?H ! p1) (set ?H)"
    using siftdown_loop_set [of p1 ?H lt pos "?H ! p1" heap'] down h1 by (simp add: siftdown_def)
  moreover have "?H ! p1 = heap ! pos" using h1 by simp
  ultimately show ?thesis using H assms(1) by (auto simp: nth_mem)
qed

lemma heappop_set:
  assumes "heappop lt heap = Inr (item, heap')"
  shows "item \<in> set heap \<and> set heap' \<subseteq> set heap"
proof (cases "heap = []")
  case True
  with assms show ?thesis by (simp add: heappop_def)
next
  case ne: False
  then have last_in: "last heap \<in> set heap" by simp
  have bl: "set (butlast heap) \<subseteq> set heap" by (auto dest: in_set_butlastD)
  show ?thesis
  proof (cases "butlast heap = []")
    case True
    with ne assms last_in show ?thesis by (simp add: heappop_def Let_def)
  next
    case False
    with ne assms have it: "item = butlast heap ! 0"
      and up: "siftup lt ((butlast heap)[0 := last heap]) 0 = Inr heap'"
      by (auto simp: heappop_def Let_def split: sum.splits)
    from False have pos: "0 < length (butlast heap)" by (cases "butlast heap") simp_all
    have "item \<in> set (butlast heap)" unfolding it using pos by (rule nth_mem)
    moreover have "set heap' \<subseteq> set ((butlast heap)[0 := last heap])"
      using siftup_set [OF _ up] pos by simp
    moreover have "set ((butlast heap)[0 := last heap]) \<subseteq> insert (last heap) (set (butlast heap))"
      by (rule set_update_subset_insert)
    ultimately show ?thesis using bl last_in by auto
  qed
qed

section \<open>Field values of the symmetric topology\<close>

lemma tie_city_fields:
  "name tie_A = ''A''" "name tie_B = ''B''" "name tie_C = ''C''" "name tie_D = ''D''"
  "has_fuel tie_A = False" "has_fuel tie_B = False" "has_fuel tie_C = False" "has_fuel tie_D = False"
  by (simp_all add: tie_A_def tie_B_def tie_C_def tie_D_def)

lemma tie_edge_fields:
  "city1 (tie_edge a b) = a" "city2 (tie_edge a b) = b" "distance_km (tie_edge a b) = 100"
  "headwind (tie_edge a b) = False" "fairwind (tie_edge a b) = False" "closed_e (tie_edge a b) = False"
  by (simp_all add: tie_edge_def Edge_init_def)

lemma tie_planner_fields:
  "graph tie_planner = tie_graph" "plane tie_planner = tie_plane"
  "tank_capacity tie_plane = 1000" "fuel_consumption tie_plane = 1" "cruise_speed tie_plane = 100"
  by (simp_all add: tie_planner_def tie_plane_def)

section \<open>Edge cost evaluator: properties\<close>














section \<open>A search that raises on a priority tie\<close>

lemma tie_hav: "haversine_distance tie_C tie_D = haversine_distance tie_B tie_D"
  by (simp add: haversine_distance_total haversine_a_def tie_B_def tie_C_def tie_D_def radians_def Let_def)

lemma tie_cities:
  "cities tie_graph ''A'' = Some tie_A" "cities tie_graph ''D'' = Some tie_D"
  by (simp_all add: tie_graph_def empty_graph_def add_city_def add_edge_def tie_city_fields)

lemma tie_edges_A:
  "get_edges_from_city tie_graph tie_A = [tie_edge tie_A tie_B, tie_edge tie_A tie_C]"
  by (simp add: get_edges_from_city_def tie_graph_def empty_graph_def add_city_def add_edge_def city_eq_def
      tie_edge_fields tie_city_fields)

lemma tie_cost:
  "calculate_edge_time_and_fuel tie_plane (tie_edge a b) 1000 = Inr (Finite 1, 100)"
  by (simp add: calculate_edge_time_and_fuel_def tie_planner_fields tie_edge_fields effective_speed_def
      effective_consumption_def wind_multipliers_def py_int_def)

lemma tie_step:
  "search_step tie_planner tie_D (initial_config (plane tie_planner) tie_A h) = Inl TypeError"
proof -
  obtain k where k: "haversine_distance tie_B tie_D = Inr k"
    by (simp add: haversine_distance_total)
  let ?cur = "(h, 0, tie_A, 1000, [tie_A], 0) :: entry"
  let ?eB = "(1 + of_int k / 100, 1, tie_B, 900, [tie_A, tie_B], 0) :: entry"
  let ?v0 = "Map.empty((''A'', 1000::int) \<mapsto> 0::real)"
  have pop: "heappop entry_lt [?cur] = Inr (?cur, [])"
    by (simp add: heappop_def)
  have nt: "\<not> city_eq tie_A tie_D" by (simp add: city_eq_def tie_city_fields)
  have e1: "expand_edge tie_planner tie_D ?cur (tie_edge tie_A tie_B) ([], ?v0) =
            Inr ([?eB], ?v0((''B'', 900) \<mapsto> 1))"
    by (simp add: expand_edge_def tie_cost k tie_planner_fields tie_edge_fields tie_city_fields
        get_other_city_def city_eq_def arrive_def py_truediv_def heappush_def siftdown_def
        siftdown_loop.simps)
  have e2: "expand_edge tie_planner tie_D ?cur (tie_edge tie_A tie_C) ([?eB], ?v0((''B'', 900) \<mapsto> 1)) =
            Inl TypeError"
    by (simp add: expand_edge_def tie_cost k tie_hav tie_planner_fields tie_edge_fields tie_city_fields
        get_other_city_def city_eq_def arrive_def py_truediv_def heappush_def siftdown_def
        siftdown_loop.simps entry_lt_def)
  show ?thesis
    by (simp add: search_step_def initial_config_def tie_planner_fields pop nt tie_edges_A e1 e2
        tie_city_fields)
qed


text \<open>
  Claim C1 says that the search never raises on a well-formed topology, in particular not
  when two frontier entries tie on both \<open>f\<close> and \<open>g\<close>. On the symmetric topology the second
  push compares two entries with equal \<open>f\<close> and \<open>g\<close> and different cities, and the search
  raises \<^verbatim>\<open>TypeError\<close>.
\<close>

theorem tie_search_raises: "a_star_search tie_planner ''A'' ''D'' = Some (Inl TypeError)"
proof -
  obtain k0 where k0: "haversine_distance tie_A tie_D = Inr k0"
    by (simp add: haversine_distance_total)
  show ?thesis
    unfolding a_star_search_def
    by (simp add: tie_planner_fields tie_cities k0 py_truediv_def
        search_loop.simps [of tie_planner tie_D "initial_config tie_plane tie_A (of_int k0 / 100)"]
        tie_step [unfolded tie_planner_fields])
qed

section \<open>Invariants of the frontier\<close>

text \<open>Every entry that a loop turn adds to the frontier is built by the loop body from the
  popped entry and one edge; a property that the first entry has and that the loop body
  preserves holds for every entry of every configuration the search passes through.\<close>

lemma expand_edge_cases:
  assumes "expand_edge rp t (cf, cg, cc, cfuel, cpath, rc) e (os, v) = Inr (os', v')"
  shows "os' = os \<or>
         (\<exists>nxt tm fc d h g' fu' rc'.
            get_other_city e cc = Inr nxt \<and>
            calculate_edge_time_and_fuel (plane rp) e cfuel = Inr (Finite tm, fc) \<and>
            arrive (plane rp) nxt cfuel cg rc tm fc = (g', fu', rc') \<and>
            haversine_distance nxt t = Inr d \<and>
            py_truediv d (cruise_speed (plane rp)) = Inr h \<and>
            heappush entry_lt os (g' + h, g', nxt, fu', cpath @ [nxt], rc') = Inr os')"
  using assms unfolding expand_edge_def
  by (auto simp: Let_def split: sum.splits pyfloat.splits prod.splits if_splits option.splits)

lemma expand_edge_invariant:
  assumes ex: "expand_edge rp t (cf, cg, cc, cfuel, cpath, rc) e (os, v) = Inr (os', v')"
    and inv: "\<forall>x\<in>set os. P x"
    and succ: "\<And>nxt tm fc d h g' fu' rc'.
      get_other_city e cc = Inr nxt \<Longrightarrow>
      calculate_edge_time_and_fuel (plane rp) e cfuel = Inr (Finite tm, fc) \<Longrightarrow>
      arrive (plane rp) nxt cfuel cg rc tm fc = (g', fu', rc') \<Longrightarrow>
      haversine_distance nxt t = Inr d \<Longrightarrow>
      py_truediv d (cruise_speed (plane rp)) = Inr h \<Longrightarrow>
      P (g' + h, g', nxt, fu', cpath @ [nxt], rc')"
  shows "\<forall>x\<in>set os'. P x"
proof -
  from expand_edge_cases [OF ex] show ?thesis
  proof
    assume "os' = os" with inv show ?thesis by simp
  next
    assume "\<exists>nxt tm fc d h g' fu' rc'.
            get_other_city e cc = Inr nxt \<and>
            calculate_edge_time_and_fuel (plane rp) e cfuel = Inr (Finite tm, fc) \<and>
            arrive (plane rp) nxt cfuel cg rc tm fc = (g', fu', rc') \<and>
            haversine_distance nxt t = Inr d \<and>
            py_truediv d (cruise_speed (plane rp)) = Inr h \<and>
            heappush entry_lt os (g' + h, g', nxt, fu', cpath @ [nxt], rc') = Inr os'"
    then obtain nxt tm fc d h g' fu' rc' where
      a: "get_other_city e cc = Inr nxt"
      "calculate_edge_time_and_fuel (plane rp) e cfuel = Inr (Finite tm, fc)"
      "arrive (plane rp) nxt cfuel cg rc tm fc = (g', fu', rc')"
      "haversine_distance nxt t = Inr d"
      "py_truediv d (cruise_speed (plane rp)) = Inr h"
      and push: "heappush entry_lt os (g' + h, g', nxt, fu', cpath @ [nxt], rc') = Inr os'"
      by blast
    have "P (g' + h, g', nxt, fu', cpath @ [nxt], rc')" using a by (rule succ)
    with heappush_set [OF push] inv show ?thesis by auto
  qed
qed

lemma expand_edges_invariant:
  assumes ex: "expand_edges rp t (cf, cg, cc, cfuel, cpath, rc) es cfg = Inr cfg'"
    and inv: "\<forall>x\<in>set (fst cfg). P x"
    and succ: "\<And>e nxt tm fc d h g' fu' rc'.
      e \<in> set es \<Longrightarrow>
      get_other_city e cc = Inr nxt \<Longrightarrow>
      calculate_edge_time_and_fuel (plane rp) e cfuel = Inr (Finite tm, fc) \<Longrightarrow>
      arrive (plane rp) nxt cfuel cg rc tm fc = (g', fu', rc') \<Longrightarrow>
      haversine_distance nxt t = Inr d \<Longrightarrow>
      py_truediv d (cruise_speed (plane rp)) = Inr h \<Longrightarrow>
      P (g' + h, g', nxt, fu', cpath @ [nxt], rc')"
  shows "\<forall>x\<in>set (fst cfg'). P x"
  using ex inv succ
proof (induction es arbitrary: cfg)
  case Nil
  then show ?case by simp
next
  case (Cons e es)
  obtain os v where cfg: "cfg = (os, v)" by (cases cfg)
  from Cons.prems(1) obtain mid where
    one: "expand_edge rp t (cf, cg, cc, cfuel, cpath, rc) e cfg = Inr mid" and
    rest: "expand_edges rp t (cf, cg, cc, cfuel, cpath, rc) es mid = Inr cfg'"
    by (auto split: sum.splits)
  obtain os1 v1 where mid: "mid = (os1, v1)" by (cases mid)
  have "\<forall>x\<in>set os1. P x"
  proof (rule expand_edge_invariant [OF one [unfolded cfg mid]])
    show "\<forall>x\<in>set os. P x" using Cons.prems(2) cfg by simp
  next
    fix nxt tm fc d h g' fu' rc'
    assume "get_other_city e cc = Inr nxt"
      "calculate_edge_time_and_fuel (plane rp) e cfuel = Inr (Finite tm, fc)"
      "arrive (plane rp) nxt cfuel cg rc tm fc = (g', fu', rc')"
      "haversine_distance nxt t = Inr d"
      "py_truediv d (cruise_speed (plane rp)) = Inr h"
    then show "P (g' + h, g', nxt, fu', cpath @ [nxt], rc')"
      using Cons.prems(3) [of e] by simp
  qed
  then have m: "\<forall>x\<in>set (fst mid). P x" using mid by simp
  show ?case
  proof (rule Cons.IH [OF rest m])
    fix e' nxt tm fc d h g' fu' rc'
    assume "e' \<in> set es"
      "get_other_city e' cc = Inr nxt"
      "calculate_edge_time_and_fuel (plane rp) e' cfuel = Inr (Finite tm, fc)"
      "arrive (plane rp) nxt cfuel cg rc tm fc = (g', fu', rc')"
      "haversine_distance nxt t = Inr d"
      "py_truediv d (cruise_speed (plane rp)) = Inr h"
    then show "P (g' + h, g', nxt, fu', cpath @ [nxt], rc')"
      using Cons.prems(3) [of e'] by simp
  qed
qed

lemma continues_invariant:
  assumes step: "continues rp t cfg cfg'"
    and inv: "\<forall>x\<in>set (fst cfg). P x"
    and succ: "\<And>cf cg cc cfuel cpath rc e nxt tm fc d h g' fu' rc'.
      P (cf, cg, cc, cfuel, cpath, rc) \<Longrightarrow>
      e \<in> set (edges (graph rp)) \<Longrightarrow>
      get_other_city e cc = Inr nxt \<Longrightarrow>
      calculate_edge_time_and_fuel (plane rp) e cfuel = Inr (Finite tm, fc) \<Longrightarrow>
      arrive (plane rp) nxt cfuel cg rc tm fc = (g', fu', rc') \<Longrightarrow>
      haversine_distance nxt t = Inr d \<Longrightarrow>
      py_truediv d (cruise_speed (plane rp)) = Inr h \<Longrightarrow>
      P (g' + h, g', nxt, fu', cpath @ [nxt], rc')"
  shows "\<forall>x\<in>set (fst cfg'). P x"
proof -
  obtain os v where cfg: "cfg = (os, v)" by (cases cfg)
  from step obtain cur os1 where
    pop: "heappop entry_lt os = Inr (cur, os1)" and
    ex: "expand_edges rp t cur (get_edges_from_city (graph rp) (fst (snd (snd cur)))) (os1, v) = Inr cfg'"
    unfolding continues_def search_step_def cfg
    by (auto split: if_splits sum.splits prod.splits)
  obtain cf cg cc cfuel cpath rc where cur: "cur = (cf, cg, cc, cfuel, cpath, rc)"
    by (cases cur)
  from heappop_set [OF pop] have cur_in: "cur \<in> set os" and sub: "set os1 \<subseteq> set os" by auto
  have Pcur: "P (cf, cg, cc, cfuel, cpath, rc)" using inv cur_in cfg cur by auto
  have inv1: "\<forall>x\<in>set (fst (os1, v)). P x" using inv sub cfg by auto
  show ?thesis
  proof (rule expand_edges_invariant [OF ex [unfolded cur, simplified] inv1])
    fix e nxt tm fc d h g' fu' rc'
    assume "e \<in> set (get_edges_from_city (graph rp) cc)"
    then have "e \<in> set (edges (graph rp))" by (simp add: get_edges_from_city_def)
    moreover assume "get_other_city e cc = Inr nxt"
      "calculate_edge_time_and_fuel (plane rp) e cfuel = Inr (Finite tm, fc)"
      "arrive (plane rp) nxt cfuel cg rc tm fc = (g', fu', rc')"
      "haversine_distance nxt t = Inr d"
      "py_truediv d (cruise_speed (plane rp)) = Inr h"
    ultimately show "P (g' + h, g', nxt, fu', cpath @ [nxt], rc')"
      using succ [OF Pcur] by simp
  qed
qed

lemma reachable_invariant:
  assumes reach: "reachable rp s t cfg"
    and init: "\<And>d h. haversine_distance s t = Inr d \<Longrightarrow>
      py_truediv d (cruise_speed (plane rp)) = Inr h \<Longrightarrow>
      P (0 + h, 0, s, tank_capacity (plane rp), [s], 0)"
    and succ: "\<And>cf cg cc cfuel cpath rc e nxt tm fc d h g' fu' rc'.
      P (cf, cg, cc, cfuel, cpath, rc) \<Longrightarrow>
      e \<in> set (edges (graph rp)) \<Longrightarrow>
      get_other_city e cc = Inr nxt \<Longrightarrow>
      calculate_edge_time_and_fuel (plane rp) e cfuel = Inr (Finite tm, fc) \<Longrightarrow>
      arrive (plane rp) nxt cfuel cg rc tm fc = (g', fu', rc') \<Longrightarrow>
      haversine_distance nxt t = Inr d \<Longrightarrow>
      py_truediv d (cruise_speed (plane rp)) = Inr h \<Longrightarrow>
      P (g' + h, g', nxt, fu', cpath @ [nxt], rc')"
  shows "\<forall>x\<in>set (fst cfg). P x"
  using reach
proof (induction rule: reachable.induct)
  case (reachable_init d h_score)
  show ?case using init [OF reachable_init.hyps] by (simp add: initial_config_def Let_def)
next
  case (reachable_step cfg cfg')
  show ?case
    by (rule continues_invariant [OF reachable_step.hyps(2) reachable_step.IH]) (rule succ)
qed

section \<open>Fuel along the search\<close>

lemma py_int_le:
  assumes "x \<le> of_int z"
  shows "py_int x \<le> z"
  using assms unfolding py_int_def by (auto simp: floor_le_iff ceiling_le_iff; linarith)

lemma calculate_accept_fuel:
  assumes "calculate_edge_time_and_fuel p e cfuel = Inr (Finite tm, fc)"
  shows "fc \<le> cfuel"
  using assms unfolding calculate_edge_time_and_fuel_def
  by (auto simp: Let_def not_less py_int_le split: if_splits)

lemma calculate_fuel_nonneg:
  assumes "calculate_edge_time_and_fuel p e cfuel = Inr (Finite tm, fc)"
    and "0 \<le> distance_km e" and "0 \<le> fuel_consumption p"
  shows "0 \<le> fc"
proof -
  have "0 \<le> snd (wind_multipliers e)" by (simp add: wind_multipliers_def)
  then have "0 \<le> distance_km e * effective_consumption p e"
    using assms(2,3) by (simp add: effective_consumption_def)
  then have "0 \<le> py_int (distance_km e * effective_consumption p e)"
    by (simp add: py_int_def)
  with assms(1) show ?thesis
    unfolding calculate_edge_time_and_fuel_def by (auto simp: Let_def split: if_splits)
qed

lemma arrive_refuel:
  assumes "has_fuel nxt" and "cfuel - fc < tank_capacity p"
  shows "arrive p nxt cfuel cg rc tm fc = (cg + tm + 1 / 2, tank_capacity p, rc + 1)"
  using assms by (simp add: arrive_def Let_def)

lemma arrive_no_refuel:
  assumes "\<not> (has_fuel nxt \<and> cfuel - fc < tank_capacity p)"
  shows "arrive p nxt cfuel cg rc tm fc = (cg + tm, cfuel - fc, rc)"
  using assms by (auto simp: arrive_def Let_def)

lemma arrive_fuel_le_capacity:
  assumes "arrive p nxt cfuel cg rc tm fc = (g', fu', rc')"
    and "cfuel \<le> tank_capacity p" and "0 \<le> fc"
  shows "fu' \<le> tank_capacity p"
  using assms by (auto simp: arrive_def Let_def split: if_splits)

lemma arrive_fuel_nonneg:
  assumes "arrive p nxt cfuel cg rc tm fc = (g', fu', rc')"
    and "fc \<le> cfuel" and "0 \<le> tank_capacity p"
  shows "0 \<le> fu'"
  using assms by (auto simp: arrive_def Let_def split: if_splits)

text \<open>
  Claim C10. In a search that starts with a full tank (of non-negative capacity) every
  entry of the frontier has non-negative remaining fuel: an edge whose raw fuel need
  exceeds the current fuel is rejected, and the fuel consumed is the truncated need, so
  \<open>new_fuel = current_fuel - trunc fuel_needed\<close> is non-negative for every accepted
  transition, before and after the refuel.
\<close>

theorem frontier_fuel_nonneg:
  assumes "0 \<le> tank_capacity (plane rp)" and "reachable rp s t cfg"
  shows "(\<forall>(f, g, c, fu, pth, r) \<in> set (fst cfg). 0 \<le> fu) \<and>
         (\<forall>e cfuel tm fc nxt cg rc.
            calculate_edge_time_and_fuel (plane rp) e cfuel = Inr (Finite tm, fc) \<longrightarrow>
            0 \<le> cfuel - fc \<and>
            0 \<le> fst (snd (arrive (plane rp) nxt cfuel cg rc tm fc)))"
proof
  have "\<forall>x\<in>set (fst cfg). (case x of (f, g, c, fu, pth, r) \<Rightarrow> 0 \<le> fu)"
  proof (rule reachable_invariant [OF assms(2)])
    fix d h
    show "case (0 + h, 0, s, tank_capacity (plane rp), [s], 0) of (f, g, c, fu, pth, r) \<Rightarrow> 0 \<le> fu"
      using assms(1) by simp
  next
    fix cf cg cc cfuel cpath rc e nxt tm fc d h g' fu' rc'
    assume "calculate_edge_time_and_fuel (plane rp) e cfuel = Inr (Finite tm, fc)"
      and "arrive (plane rp) nxt cfuel cg rc tm fc = (g', fu', rc')"
    then have "0 \<le> fu'"
      using arrive_fuel_nonneg calculate_accept_fuel assms(1) by blast
    then show "case (g' + h, g', nxt, fu', cpath @ [nxt], rc') of (f, g, c, fu, pth, r) \<Rightarrow> 0 \<le> fu"
      by simp
  qed
  then show "\<forall>(f, g, c, fu, pth, r) \<in> set (fst cfg). 0 \<le> fu" .
next
  show "\<forall>e cfuel tm fc nxt cg rc.
            calculate_edge_time_and_fuel (plane rp) e cfuel = Inr (Finite tm, fc) \<longrightarrow>
            0 \<le> cfuel - fc \<and>
            0 \<le> fst (snd (arrive (plane rp) nxt cfuel cg rc tm fc))"
  proof (intro allI impI)
    fix e cfuel tm fc nxt cg rc
    assume c: "calculate_edge_time_and_fuel (plane rp) e cfuel = Inr (Finite tm, fc)"
    from calculate_accept_fuel [OF c] have le: "fc \<le> cfuel" .
    obtain g' fu' rc' where a: "arrive (plane rp) nxt cfuel cg rc tm fc = (g', fu', rc')"
      by (cases "arrive (plane rp) nxt cfuel cg rc tm fc") auto
    from arrive_fuel_nonneg [OF a le assms(1)] a le
    show "0 \<le> cfuel - fc \<and> 0 \<le> fst (snd (arrive (plane rp) nxt cfuel cg rc tm fc))"
      by simp
  qed
qed

text \<open>
  Claim C4. When a transition arrives at a city with fuel and the fuel after the edge is
  strictly below the tank capacity, the refuel fires: the elapsed time grows by exactly
  0.5 hours on top of the edge time, the fuel becomes the tank capacity and the refuel
  counter grows by one, and the entry admitted to the frontier carries these values.
  With non-negative distances and consumption, the fuel of every frontier entry is at
  most the tank capacity.
\<close>

theorem refuel_on_arrival:
  "(has_fuel nxt \<and> cfuel - fc < tank_capacity (plane rp) \<longrightarrow>
      arrive (plane rp) nxt cfuel cg rc tm fc = (cg + tm + 0.5, tank_capacity (plane rp), rc + 1)) \<and>
   (\<not> (has_fuel nxt \<and> cfuel - fc < tank_capacity (plane rp)) \<longrightarrow>
      arrive (plane rp) nxt cfuel cg rc tm fc = (cg + tm, cfuel - fc, rc)) \<and>
   (expand_edge rp t (cf, cg, cc, cfuel, cpath, rc) e (os, v) = Inr (os', v') \<and>
    get_other_city e cc = Inr nxt \<and>
    calculate_edge_time_and_fuel (plane rp) e cfuel = Inr (Finite tm, fc) \<and>
    has_fuel nxt \<and> cfuel - fc < tank_capacity (plane rp) \<longrightarrow>
      (\<forall>x\<in>set os'. x \<in> set os \<or>
         (\<exists>h. x = (cg + tm + 0.5 + h, cg + tm + 0.5, nxt, tank_capacity (plane rp),
                   cpath @ [nxt], rc + 1)))) \<and>
   ((\<forall>e\<in>set (edges (graph rp)). 0 \<le> distance_km e) \<and> 0 \<le> fuel_consumption (plane rp) \<and>
    reachable rp s t cfg \<longrightarrow>
      (\<forall>(f, g, c, fu, pth, r) \<in> set (fst cfg). fu \<le> tank_capacity (plane rp)))"
proof (intro conjI impI)
  assume "has_fuel nxt \<and> cfuel - fc < tank_capacity (plane rp)"
  then show "arrive (plane rp) nxt cfuel cg rc tm fc = (cg + tm + 0.5, tank_capacity (plane rp), rc + 1)"
    using arrive_refuel [of nxt cfuel fc "plane rp" cg rc tm] by simp
next
  assume "\<not> (has_fuel nxt \<and> cfuel - fc < tank_capacity (plane rp))"
  then show "arrive (plane rp) nxt cfuel cg rc tm fc = (cg + tm, cfuel - fc, rc)"
    by (rule arrive_no_refuel)
next
  assume a: "expand_edge rp t (cf, cg, cc, cfuel, cpath, rc) e (os, v) = Inr (os', v') \<and>
    get_other_city e cc = Inr nxt \<and>
    calculate_edge_time_and_fuel (plane rp) e cfuel = Inr (Finite tm, fc) \<and>
    has_fuel nxt \<and> cfuel - fc < tank_capacity (plane rp)"
  then have ar: "arrive (plane rp) nxt cfuel cg rc tm fc = (cg + tm + 1 / 2, tank_capacity (plane rp), rc + 1)"
    using arrive_refuel by simp
  from a have ex: "expand_edge rp t (cf, cg, cc, cfuel, cpath, rc) e (os, v) = Inr (os', v')" by simp
  let ?Q = "\<lambda>x :: entry. x \<in> set os \<or>
         (\<exists>h. x = (cg + tm + 0.5 + h, cg + tm + 0.5, nxt, tank_capacity (plane rp),
                   cpath @ [nxt], rc + 1))"
  show "\<forall>x\<in>set os'. ?Q x"
  proof (rule expand_edge_invariant [OF ex])
    show "\<forall>x\<in>set os. ?Q x" by simp
  next
    fix nxt' tm' fc' d h g' fu' rc'
    assume "get_other_city e cc = Inr nxt'"
      "calculate_edge_time_and_fuel (plane rp) e cfuel = Inr (Finite tm', fc')"
      "arrive (plane rp) nxt' cfuel cg rc tm' fc' = (g', fu', rc')"
    with a ar have "nxt' = nxt" "g' = cg + tm + 1 / 2" "fu' = tank_capacity (plane rp)" "rc' = rc + 1"
      by auto
    then show "?Q (g' + h, g', nxt', fu', cpath @ [nxt'], rc')" by simp
  qed
next
  assume a: "(\<forall>e\<in>set (edges (graph rp)). 0 \<le> distance_km e) \<and> 0 \<le> fuel_consumption (plane rp) \<and>
    reachable rp s t cfg"
  let ?P = "\<lambda>x :: entry. case x of (f, g, c, fu, pth, r) \<Rightarrow> fu \<le> tank_capacity (plane rp)"
  from a have reach: "reachable rp s t cfg" by simp
  have "\<forall>x\<in>set (fst cfg). ?P x"
  proof (rule reachable_invariant [OF reach])
    fix d h
    show "?P (0 + h, 0, s, tank_capacity (plane rp), [s], 0)" by simp
  next
    fix cf cg cc cfuel cpath rc e nxt tm fc d h g' fu' rc'
    assume "?P (cf, cg, cc, cfuel, cpath, rc)" and e: "e \<in> set (edges (graph rp))"
      and c: "calculate_edge_time_and_fuel (plane rp) e cfuel = Inr (Finite tm, fc)"
      and ar: "arrive (plane rp) nxt cfuel cg rc tm fc = (g', fu', rc')"
    then have le: "cfuel \<le> tank_capacity (plane rp)" by simp
    have "0 \<le> fc" using calculate_fuel_nonneg [OF c] a e by simp
    from arrive_fuel_le_capacity [OF ar le this]
    show "?P (g' + h, g', nxt, fu', cpath @ [nxt], rc')" by simp
  qed
  then show "\<forall>(f, g, c, fu, pth, r) \<in> set (fst cfg). fu \<le> tank_capacity (plane rp)" .
qed

section \<open>The heuristic\<close>

lemma great_circle_haversine_a:
  "great_circle_km c1 c2 = 6371 * (2 * arcsin (sqrt (haversine_a c1 c2)))"
  by (simp add: great_circle_km_def central_angle_def hav_def haversine_a_def Let_def)

lemma haversine_distance_great_circle:
  "haversine_distance c1 c2 = Inr \<lceil>great_circle_km c1 c2\<rceil>"
  by (simp add: haversine_distance_total great_circle_haversine_a)





text \<open>A lower bound from the difference in latitude alone, with \<open>2 \<le> pi\<close>.\<close>

lemma great_circle_lower_bound:
  assumes l1: "\<bar>lat c1\<bar> \<le> 90" and l2: "\<bar>lat c2\<bar> \<le> 90"
  shows "6371 * \<bar>lat c2 - lat c1\<bar> / 90 \<le> great_circle_km c1 c2"
proof -
  define dl where "dl = \<bar>radians (lat c2) - radians (lat c1)\<bar> / 2"
  have pi2: "2 \<le> pi" by (rule pi_ge_two)
  have r1: "\<bar>radians (lat c1)\<bar> \<le> pi / 2"
    using l1 by (simp add: radians_def abs_mult field_simps)
  have r2: "\<bar>radians (lat c2)\<bar> \<le> pi / 2"
    using l2 by (simp add: radians_def abs_mult field_simps)
  have c1: "0 \<le> cos (radians (lat c1))" using r1 by (intro cos_ge_zero) (auto simp: abs_le_iff)
  have c2: "0 \<le> cos (radians (lat c2))" using r2 by (intro cos_ge_zero) (auto simp: abs_le_iff)
  have dl0: "0 \<le> dl" by (simp add: dl_def)
  have dl1: "dl \<le> pi / 2"
    using r1 r2 unfolding dl_def by (auto simp: abs_if split: if_splits)
  have sdl: "0 \<le> sin dl" using dl0 dl1 pi2 by (intro sin_ge_zero) auto
  have sq: "(sin ((radians (lat c2) - radians (lat c1)) / 2))\<^sup>2 = (sin dl)\<^sup>2"
  proof (cases "0 \<le> radians (lat c2) - radians (lat c1)")
    case True
    then show ?thesis by (simp add: dl_def)
  next
    case False
    then have "dl = - ((radians (lat c2) - radians (lat c1)) / 2)"
      unfolding dl_def by (simp add: abs_if field_simps)
    then show ?thesis by (metis power2_minus sin_minus minus_minus)
  qed
  have a_ge: "(sin dl)\<^sup>2 \<le> haversine_a c1 c2"
    unfolding haversine_a_def Let_def sq using c1 c2 by simp
  have rng: "0 \<le> haversine_a c1 c2" "haversine_a c1 c2 \<le> 1"
    using haversine_a_range [of c1 c2] by auto
  have "sin dl \<le> sqrt (haversine_a c1 c2)"
    using a_ge sdl by (metis real_le_rsqrt)
  moreover have "sqrt (haversine_a c1 c2) \<le> 1" using rng by (simp add: real_sqrt_le_1_iff)
  ultimately have "arcsin (sin dl) \<le> arcsin (sqrt (haversine_a c1 c2))"
    using sdl by (intro arcsin_le_arcsin) auto
  moreover have "arcsin (sin dl) = dl"
    using dl0 dl1 by (intro arcsin_sin) auto
  ultimately have "6371 * (2 * dl) \<le> great_circle_km c1 c2"
    by (simp add: great_circle_haversine_a)
  moreover have "2 * dl = \<bar>lat c2 - lat c1\<bar> * pi / 180"
  proof -
    have "radians (lat c2) - radians (lat c1) = (lat c2 - lat c1) * (pi / 180)"
      by (simp add: radians_def field_simps)
    then have "\<bar>radians (lat c2) - radians (lat c1)\<bar> = \<bar>(lat c2 - lat c1) * (pi / 180)\<bar>"
      by (rule arg_cong)
    also have "\<dots> = \<bar>lat c2 - lat c1\<bar> * (pi / 180)"
      by (simp only: abs_mult) simp
    finally have "\<bar>radians (lat c2) - radians (lat c1)\<bar> = \<bar>lat c2 - lat c1\<bar> * (pi / 180)" .
    then show ?thesis by (simp add: dl_def)
  qed
  moreover have "\<bar>lat c2 - lat c1\<bar> * 2 / 180 \<le> \<bar>lat c2 - lat c1\<bar> * pi / 180"
  proof -
    have "\<bar>lat c2 - lat c1\<bar> * 2 \<le> \<bar>lat c2 - lat c1\<bar> * pi"
      by (rule mult_left_mono [OF pi2]) simp
    then show ?thesis by (simp add: divide_right_mono)
  qed
  ultimately show ?thesis by simp
qed

section \<open>The demonstration run\<close>

lemma demo_city_fields:
  "name moscow = ''Moscow''" "name spb = ''St Petersburg''" "name kazan = ''Kazan''"
  "name sochi = ''Sochi''" "name samara = ''Samara''"
  "has_fuel moscow" "has_fuel spb" "has_fuel kazan" "\<not> has_fuel sochi" "has_fuel samara"
  by (simp_all add: moscow_def spb_def kazan_def sochi_def samara_def)

lemma demo_lats:
  "lat spb = 59.9343" "lat kazan = 55.8304" "lat sochi = 43.5855"
  by (simp_all add: spb_def kazan_def sochi_def)

lemma Edge_init_fields:
  "city1 (Edge_init a b d hw fw cl) = a" "city2 (Edge_init a b d hw fw cl) = b"
  "distance_km (Edge_init a b d hw fw cl) = d" "headwind (Edge_init a b d hw fw cl) = hw"
  "fairwind (Edge_init a b d hw fw cl) = fw" "closed_e (Edge_init a b d hw fw cl) = cl"
  by (simp_all add: Edge_init_def)

lemma demo_planner_fields:
  "graph demo_planner = create_test_graph" "plane demo_planner = demo_plane"
  "tank_capacity demo_plane = 16000" "fuel_consumption demo_plane = 27 / 10"
  "cruise_speed demo_plane = 841"
  by (simp_all add: demo_planner_def demo_plane_def)

lemma demo_cities:
  "cities create_test_graph ''Moscow'' = Some moscow"
  "cities create_test_graph ''Sochi'' = Some sochi"
  by (simp_all add: create_test_graph_def empty_graph_def add_city_def add_edge_def
      demo_city_fields Let_def)

lemma demo_edges:
  "edges create_test_graph =
     [Edge_init moscow spb 650 False True False,
      Edge_init moscow kazan 720 False False False,
      Edge_init moscow sochi 1360 True False False,
      Edge_init kazan samara 450 False False False,
      Edge_init spb kazan 1150 False False True,
      Edge_init samara sochi 1250 False False False]"
  by (simp add: create_test_graph_def empty_graph_def add_city_def add_edge_def Let_def)

lemma demo_edges_moscow:
  "get_edges_from_city create_test_graph moscow =
     [Edge_init moscow spb 650 False True False,
      Edge_init moscow kazan 720 False False False,
      Edge_init moscow sochi 1360 True False False]"
  by (simp add: get_edges_from_city_def demo_edges city_eq_def Edge_init_fields demo_city_fields)

lemma demo_cost_spb:
  "calculate_edge_time_and_fuel demo_plane (Edge_init moscow spb 650 False True False) 16000 =
     Inr (Finite (4 / 5), 1579)"
proof -
  have c: "\<lceil>(65000 :: real) / 9251\<rceil> = 8" by (simp add: ceiling_eq_iff)
  have f: "\<lfloor>(15795 :: real) / 10\<rfloor> = 1579" by (simp add: floor_eq_iff)
  show ?thesis
    by (simp add: calculate_edge_time_and_fuel_def effective_speed_def effective_consumption_def
        wind_multipliers_def Edge_init_fields demo_planner_fields py_int_def c f)
qed

lemma demo_cost_kazan:
  "calculate_edge_time_and_fuel demo_plane (Edge_init moscow kazan 720 False False False) 16000 =
     Inr (Finite (9 / 10), 1944)"
proof -
  have c: "\<lceil>(7200 :: real) / 841\<rceil> = 9" by (simp add: ceiling_eq_iff)
  show ?thesis
    by (simp add: calculate_edge_time_and_fuel_def effective_speed_def effective_consumption_def
        wind_multipliers_def Edge_init_fields demo_planner_fields py_int_def c)
qed

lemma demo_cost_sochi:
  "calculate_edge_time_and_fuel demo_plane (Edge_init moscow sochi 1360 True False False) 16000 =
     Inr (Finite (21 / 10), 4406)"
proof -
  have c: "\<lceil>(170000 :: real) / 8410\<rceil> = 21" by (simp add: ceiling_eq_iff)
  have f: "\<lfloor>(22032 :: real) / 5\<rfloor> = 4406" by (simp add: floor_eq_iff)
  show ?thesis
    by (simp add: calculate_edge_time_and_fuel_def effective_speed_def effective_consumption_def
        wind_multipliers_def Edge_init_fields demo_planner_fields py_int_def c f)
qed


lemma heappush_empty: "heappush lt [] x = Inr [x]"
  by (simp add: heappush_def siftdown_def siftdown_loop.simps)

lemma heappush_one:
  "lt y x = Inr b \<Longrightarrow> heappush lt [x] y = Inr (if b then [y, x] else [x, y])"
  by (simp add: heappush_def siftdown_def siftdown_loop.simps)

lemma heappush_two_root:
  "lt z x = Inr True \<Longrightarrow> heappush lt [x, y] z = Inr [z, y, x]"
  by (simp add: heappush_def siftdown_def siftdown_loop.simps)

lemma heappop_one: "heappop lt [x] = Inr (x, [])"
  by (simp add: heappop_def)

lemma heappop_three:
  "lt y x = Inr b \<Longrightarrow> heappop lt [r, x, y] = Inr (r, if b then [y, x] else [x, y])"
  by (simp add: heappop_def siftup_def smaller_child_def Let_def siftup_loop.simps
      siftdown_def siftdown_loop.simps)


lemma demo_hav_sochi: "haversine_distance sochi sochi = Inr 0"
  by (simp add: haversine_distance_total haversine_a_def Let_def)

lemma demo_hav_spb: "\<exists>k. haversine_distance spb sochi = Inr k \<and> 673 \<le> k"
proof -
  have "6371 * \<bar>lat sochi - lat spb\<bar> / 90 \<le> great_circle_km spb sochi"
    by (rule great_circle_lower_bound) (simp_all add: spb_def sochi_def)
  then have "672 < great_circle_km spb sochi" by (simp add: demo_lats)
  then have "673 \<le> \<lceil>great_circle_km spb sochi\<rceil>" by linarith
  then show ?thesis by (simp add: haversine_distance_great_circle)
qed

lemma demo_hav_kazan: "\<exists>k. haversine_distance kazan sochi = Inr k \<and> 589 \<le> k"
proof -
  have "6371 * \<bar>lat sochi - lat kazan\<bar> / 90 \<le> great_circle_km kazan sochi"
    by (rule great_circle_lower_bound) (simp_all add: kazan_def sochi_def)
  then have "588 < great_circle_km kazan sochi" by (simp add: demo_lats)
  then have "589 \<le> \<lceil>great_circle_km kazan sochi\<rceil>" by linarith
  then show ?thesis by (simp add: haversine_distance_great_circle)
qed

lemma demo_arrive:
  "arrive demo_plane spb 16000 0 0 (4 / 5) 1579 = (13 / 10, 16000, 1)"
  "arrive demo_plane kazan 16000 0 0 (9 / 10) 1944 = (7 / 5, 16000, 1)"
  "arrive demo_plane sochi 16000 0 0 (21 / 10) 4406 = (21 / 10, 11594, 0)"
  by (simp_all add: arrive_def demo_city_fields demo_planner_fields)

lemma demo_other:
  "get_other_city (Edge_init moscow c d hw fw cl) moscow = Inr c"
  by (simp add: get_other_city_def city_eq_def Edge_init_fields)


lemma expand_edge_push:
  assumes "get_other_city e cc = Inr nxt"
    and "calculate_edge_time_and_fuel (plane rp) e cfuel = Inr (Finite tm, fc)"
    and "arrive (plane rp) nxt cfuel cg rc tm fc = (g', fu', rc')"
    and "v (name nxt, fu') = None"
    and "haversine_distance nxt t = Inr d"
    and "cruise_speed (plane rp) \<noteq> 0"
    and "heappush entry_lt os
           (g' + of_int d / of_int (cruise_speed (plane rp)), g', nxt, fu', cpath @ [nxt], rc') =
         Inr os'"
  shows "expand_edge rp t (cf, cg, cc, cfuel, cpath, rc) e (os, v) =
         Inr (os', v((name nxt, fu') \<mapsto> g'))"
  using assms by (simp add: expand_edge_def py_truediv_def)


lemma demo_expand_spb:
  assumes k1: "haversine_distance spb sochi = Inr k1"
  shows "expand_edge demo_planner sochi (h, 0, moscow, 16000, [moscow], 0)
           (Edge_init moscow spb 650 False True False) ([], Map.empty((''Moscow'', 16000) \<mapsto> 0)) =
         Inr ([(13 / 10 + of_int k1 / 841, 13 / 10, spb, 16000, [moscow, spb], 1)],
              (Map.empty((''Moscow'', 16000) \<mapsto> 0))((''St Petersburg'', 16000) \<mapsto> 13 / 10))"
proof -
  let ?e1 = "(13 / 10 + of_int k1 / 841, 13 / 10, spb, 16000, [moscow, spb], 1) :: entry"
  let ?v0 = "Map.empty((''Moscow'', 16000::int) \<mapsto> 0::real)"
  have cr: "cruise_speed (plane demo_planner) \<noteq> 0" by (simp add: demo_planner_fields)
  have push1: "heappush entry_lt []
         (13 / 10 + of_int k1 / of_int (cruise_speed (plane demo_planner)), 13 / 10, spb, 16000,
          [moscow] @ [spb], 1) = Inr [?e1]"
    by (simp add: heappush_empty demo_planner_fields)
  show ?thesis
    using expand_edge_push [OF demo_other demo_cost_spb [folded demo_planner_fields(2)]
        demo_arrive(1) [folded demo_planner_fields(2)] _ k1 cr push1, of ?v0 h]
    by (simp add: demo_city_fields)
qed

lemma demo_first_turn:
  assumes k1: "haversine_distance spb sochi = Inr k1" "673 \<le> k1"
    and k2: "haversine_distance kazan sochi = Inr k2" "589 \<le> k2"
  shows "\<exists>x y v b. entry_lt y x = Inr b \<and>
           continues demo_planner sochi (initial_config demo_plane moscow h)
             ([(21 / 10, 21 / 10, sochi, 11594, [moscow, sochi], 0), x, y], v)"
proof -
  let ?cur = "(h, 0, moscow, 16000, [moscow], 0) :: entry"
  let ?e1 = "(13 / 10 + of_int k1 / 841, 13 / 10, spb, 16000, [moscow, spb], 1) :: entry"
  let ?e2 = "(7 / 5 + of_int k2 / 841, 7 / 5, kazan, 16000, [moscow, kazan], 1) :: entry"
  let ?e3 = "(21 / 10, 21 / 10, sochi, 11594, [moscow, sochi], 0) :: entry"
  let ?v0 = "Map.empty((''Moscow'', 16000::int) \<mapsto> 0::real)"
  let ?v1 = "?v0((''St Petersburg'', 16000) \<mapsto> 13 / 10)"
  let ?v2 = "?v1((''Kazan'', 16000) \<mapsto> 7 / 5)"
  let ?v3 = "?v2((''Sochi'', 11594) \<mapsto> 21 / 10)"
  have "\<exists>b. entry_lt ?e2 ?e1 = Inr b" by (auto simp: entry_lt_def cong: if_cong)
  then obtain b where b: "entry_lt ?e2 ?e1 = Inr b" ..
  let ?h2 = "if b then [?e2, ?e1] else [?e1, ?e2]"
  let ?h3 = "if b then [?e3, ?e1, ?e2] else [?e3, ?e2, ?e1]"
  have lt31: "entry_lt ?e3 ?e1 = Inr True" using k1(2) by (simp add: entry_lt_def)
  have lt32: "entry_lt ?e3 ?e2 = Inr True" using k2(2) by (simp add: entry_lt_def)
  have cr: "cruise_speed (plane demo_planner) \<noteq> 0" by (simp add: demo_planner_fields)
  have x1: "expand_edge demo_planner sochi ?cur (Edge_init moscow spb 650 False True False) ([], ?v0) =
            Inr ([?e1], ?v1)"
    by (rule demo_expand_spb [OF k1(1)])
  have push2: "heappush entry_lt [?e1]
         (7 / 5 + of_int k2 / of_int (cruise_speed (plane demo_planner)), 7 / 5, kazan, 16000,
          [moscow] @ [kazan], 1) = Inr ?h2"
    using heappush_one [of entry_lt ?e2 ?e1 b, OF b] by (simp add: demo_planner_fields)
  have x2: "expand_edge demo_planner sochi ?cur (Edge_init moscow kazan 720 False False False) ([?e1], ?v1) =
            Inr (?h2, ?v2)"
    using expand_edge_push [OF demo_other demo_cost_kazan [folded demo_planner_fields(2)]
        demo_arrive(2) [folded demo_planner_fields(2)] _ k2(1) cr push2, of ?v1 h]
    by (simp add: demo_city_fields)
  have push3: "heappush entry_lt ?h2
         (21 / 10 + of_int 0 / of_int (cruise_speed (plane demo_planner)), 21 / 10, sochi, 11594,
          [moscow] @ [sochi], 0) = Inr ?h3"
    using heappush_two_root [of entry_lt ?e3 ?e1 ?e2, OF lt31]
      heappush_two_root [of entry_lt ?e3 ?e2 ?e1, OF lt32] by simp
  have x3: "expand_edge demo_planner sochi ?cur (Edge_init moscow sochi 1360 True False False) (?h2, ?v2) =
            Inr (?h3, ?v3)"
    using expand_edge_push [OF demo_other demo_cost_sochi [folded demo_planner_fields(2)]
        demo_arrive(3) [folded demo_planner_fields(2)] _ demo_hav_sochi cr push3, of ?v2 h]
    by (simp add: demo_city_fields)
  have nt: "\<not> city_eq moscow sochi" by (simp add: city_eq_def demo_city_fields)
  have "\<exists>b'. entry_lt ?e1 ?e2 = Inr b'" by (auto simp: entry_lt_def cong: if_cong)
  then obtain b' where b': "entry_lt ?e1 ?e2 = Inr b'" ..
  have c: "continues demo_planner sochi (initial_config demo_plane moscow h) (?h3, ?v3)"
    unfolding continues_def search_step_def
    by (simp add: initial_config_def demo_planner_fields heappop_one nt demo_edges_moscow
        demo_city_fields x1 x2 x3 Let_def)
  show ?thesis
  proof (cases b)
    case True
    with c have "continues demo_planner sochi (initial_config demo_plane moscow h)
                   ([?e3, ?e1, ?e2], ?v3)" by simp
    with b show ?thesis by blast
  next
    case False
    with c have "continues demo_planner sochi (initial_config demo_plane moscow h)
                   ([?e3, ?e2, ?e1], ?v3)" by simp
    with b' show ?thesis by blast
  qed
qed


lemma demo_second_turn:
  assumes "entry_lt y x = Inr b"
  shows "search_step demo_planner sochi
           ([(21 / 10, 21 / 10, sochi, 11594, [moscow, sochi], 0), x, y], v) =
         Inr (Inl (build_result demo_planner [moscow, sochi] (21 / 10) 0))"
  unfolding search_step_def
  by (simp add: heappop_three [of entry_lt y x b, OF assms] city_eq_def)

lemma demo_build_result:
  "build_result demo_planner [moscow, sochi] (21 / 10) 0 =
     Route \<lparr>route = [''Moscow'', ''Sochi''], total_time = 21 / 10, refuel_stops = [''Moscow''],
            total_distance = 1360, refuel_count = 0\<rparr>"
  by (simp add: build_result_def demo_planner_fields demo_edges demo_city_fields Edge_init_fields
      city_eq_def py_round_def py_round2_def Let_def)

lemma search_loop_return:
  "search_step rp t cfg = Inr (Inl res) \<Longrightarrow> search_loop rp t cfg = Some (Inr res)"
  by (subst search_loop.simps) simp

lemma search_loop_raise:
  "search_step rp t cfg = Inl e \<Longrightarrow> search_loop rp t cfg = Some (Inl e)"
  by (subst search_loop.simps) simp

lemma search_loop_continue:
  "continues rp t cfg cfg' \<Longrightarrow> search_loop rp t cfg = search_loop rp t cfg'"
  by (subst search_loop.simps) (simp add: continues_def)


lemma demo_reachable:
  "\<exists>x y v. reachable demo_planner moscow sochi
             ([(21 / 10, 21 / 10, sochi, 11594, [moscow, sochi], 0), x, y], v)"
proof -
  obtain k0 where k0: "haversine_distance moscow sochi = Inr k0"
    by (simp add: haversine_distance_total)
  obtain k1 where k1: "haversine_distance spb sochi = Inr k1" "673 \<le> k1"
    using demo_hav_spb by blast
  obtain k2 where k2: "haversine_distance kazan sochi = Inr k2" "589 \<le> k2"
    using demo_hav_kazan by blast
  have d: "py_truediv k0 (cruise_speed (plane demo_planner)) = Inr (of_int k0 / 841)"
    by (simp add: py_truediv_def demo_planner_fields)
  have r0: "reachable demo_planner moscow sochi
              (initial_config (plane demo_planner) moscow (of_int k0 / 841))"
    by (rule reachable_init [OF k0 d])
  obtain x y v b where
    c: "continues demo_planner sochi (initial_config demo_plane moscow (of_int k0 / 841))
          ([(21 / 10, 21 / 10, sochi, 11594, [moscow, sochi], 0), x, y], v)"
    using demo_first_turn [OF k1 k2, of "of_int k0 / 841"] by blast
  from reachable_step [OF r0 c [folded demo_planner_fields(2)]] show ?thesis by blast
qed

lemma demo_well_formed:
  "(\<forall>e\<in>set (edges (graph demo_planner)). 0 \<le> distance_km e) \<and>
   0 \<le> fuel_consumption (plane demo_planner) \<and> 0 \<le> tank_capacity (plane demo_planner)"
  by (simp add: demo_planner_fields demo_edges Edge_init_fields)

text \<open>
  Claim C8. On the demonstration topology (Moscow, St Petersburg, Kazan, Sochi, Samara with
  the six listed connections; tank 16000 L, 2.7 L/km, 841 km/h) the search from Moscow to
  Sochi succeeds with the direct route over the headwind edge, total distance 1360 km and
  refuel count 0.
\<close>

theorem demo_search_moscow_sochi:
  "a_star_search demo_planner ''Moscow'' ''Sochi'' =
     Some (Inr (Route \<lparr>route = [''Moscow'', ''Sochi''], total_time = 21 / 10,
                       refuel_stops = [''Moscow''], total_distance = 1360, refuel_count = 0\<rparr>))"
proof -
  obtain k0 where k0: "haversine_distance moscow sochi = Inr k0"
    by (simp add: haversine_distance_total)
  obtain k1 where k1: "haversine_distance spb sochi = Inr k1" "673 \<le> k1"
    using demo_hav_spb by blast
  obtain k2 where k2: "haversine_distance kazan sochi = Inr k2" "589 \<le> k2"
    using demo_hav_kazan by blast
  let ?h = "of_int k0 / 841 :: real"
  obtain x y v b where b: "entry_lt y x = Inr b" and
    c: "continues demo_planner sochi (initial_config demo_plane moscow ?h)
          ([(21 / 10, 21 / 10, sochi, 11594, [moscow, sochi], 0), x, y], v)"
    using demo_first_turn [OF k1 k2, of ?h] by blast
  have "search_loop demo_planner sochi (initial_config demo_plane moscow ?h) =
        Some (Inr (build_result demo_planner [moscow, sochi] (21 / 10) 0))"
    unfolding search_loop_continue [OF c]
    by (rule search_loop_return [OF demo_second_turn [OF b]])
  then show ?thesis
    by (simp add: a_star_search_def demo_planner_fields demo_cities k0 py_truediv_def
        demo_build_result)
qed

section \<open>The two error results\<close>

















section \<open>The itinerary\<close>

lemma first_match_distance_find:
  "first_match_distance a b es = pair_distance es a b"
  by (induction es) (auto simp: pair_distance_def joins_def city_eq_def)

lemma walk_distance_sum:
  "walk_distance es cs acc = acc + path_distance es cs"
proof (induction es cs acc rule: walk_distance.induct)
  case (1 es c1 c2 rest dist_acc)
  then show ?case by (simp add: path_distance_def first_match_distance_find)
qed (simp_all add: path_distance_def)

lemma collect_refuel_cities_filter:
  "collect_refuel_cities cs acc = acc @ map name (filter has_fuel cs)"
  by (induction cs arbitrary: acc) simp_all

lemma build_result_spec:
  "build_result rp cs g rc =
     Route \<lparr>route = map name cs, total_time = py_round2 g,
            refuel_stops = fuel_capable_stops cs,
            total_distance = py_round (path_distance (edges (graph rp)) cs),
            refuel_count = rc\<rparr>"
  by (simp add: build_result_def walk_distance_sum collect_refuel_cities_filter
      fuel_capable_stops_def Let_def)

lemma py_round_nearest: "\<bar>of_int (py_round x) - x\<bar> \<le> 1 / 2"
  unfolding py_round_def Let_def by (auto; linarith)

lemma py_round2_nearest: "\<bar>py_round2 x - x\<bar> \<le> 1 / 200"
  using py_round_nearest [of "x * 100"] unfolding py_round2_def by (simp add: field_simps abs_if split: if_splits)

lemma search_step_success:
  assumes "search_step rp t cfg = Inr (Inl (Route it))"
  shows "\<exists>f g c fu pth r os1.
           heappop entry_lt (fst cfg) = Inr ((f, g, c, fu, pth, r), os1) \<and> city_eq c t \<and>
           Route it = build_result rp pth g r"
  using assms unfolding search_step_def
  by (cases cfg) (auto split: if_splits sum.splits prod.splits)

text \<open>
  Claim C7. The itinerary is built from the path of the popped entry at the target: the
  route is the names of the path; the total time is the accumulated time rounded to two
  decimals; the total distance is the sum over consecutive pairs of the path of the
  distance of the first connection in declaration order that joins the pair, rounded to
  the nearest integer; the refuel stops are the cities with fuel among all but the last
  of the path, whatever refuels fired; the refuel count is the counter of the branch.
  The two can disagree.
\<close>

theorem itinerary_construction:
  "build_result rp cs g rc =
     Route \<lparr>route = map name cs, total_time = py_round2 g,
            refuel_stops = fuel_capable_stops cs,
            total_distance = py_round (path_distance (edges (graph rp)) cs),
            refuel_count = rc\<rparr> \<and>
   \<bar>py_round2 g - g\<bar> \<le> 1 / 200 \<and> py_round2 g * 100 = of_int (py_round (g * 100)) \<and>
   \<bar>of_int (py_round (path_distance (edges (graph rp)) cs)) - path_distance (edges (graph rp)) cs\<bar>
     \<le> 1 / 2 \<and>
   (search_step rp t cfg = Inr (Inl (Route it)) \<longrightarrow>
      (\<exists>f g' c fu pth r os1.
         heappop entry_lt (fst cfg) = Inr ((f, g', c, fu, pth, r), os1) \<and> city_eq c t \<and>
         Route it = build_result rp pth g' r)) \<and>
   (\<exists>rp' cs' g' rc' it'. build_result rp' cs' g' rc' = Route it' \<and>
      int (length (refuel_stops it')) \<noteq> refuel_count it')"
proof (intro conjI impI)
  show "build_result rp cs g rc =
     Route \<lparr>route = map name cs, total_time = py_round2 g,
            refuel_stops = fuel_capable_stops cs,
            total_distance = py_round (path_distance (edges (graph rp)) cs),
            refuel_count = rc\<rparr>"
    by (rule build_result_spec)
  show "\<bar>py_round2 g - g\<bar> \<le> 1 / 200" by (rule py_round2_nearest)
  show "py_round2 g * 100 = of_int (py_round (g * 100))" by (simp add: py_round2_def)
  show "\<bar>of_int (py_round (path_distance (edges (graph rp)) cs)) - path_distance (edges (graph rp)) cs\<bar>
     \<le> 1 / 2"
    by (rule py_round_nearest)
  show "\<exists>rp' cs' g' rc' it'. build_result rp' cs' g' rc' = Route it' \<and>
      int (length (refuel_stops it')) \<noteq> refuel_count it'"
    using demo_build_result by (intro exI conjI) auto
next
  assume "search_step rp t cfg = Inr (Inl (Route it))"
  then show "\<exists>f g' c fu pth r os1.
         heappop entry_lt (fst cfg) = Inr ((f, g', c, fu, pth, r), os1) \<and> city_eq c t \<and>
         Route it = build_result rp pth g' r"
    by (rule search_step_success)
qed

theorem itinerary_construction_witness:
  "\<exists>x y v it.
     search_step demo_planner sochi
       ([(21 / 10, 21 / 10, sochi, 11594, [moscow, sochi], 0), x, y], v) = Inr (Inl (Route it)) \<and>
     (\<exists>f g' c fu pth r os1.
         heappop entry_lt [(21 / 10, 21 / 10, sochi, 11594, [moscow, sochi], 0), x, y] =
           Inr ((f, g', c, fu, pth, r), os1) \<and> city_eq c sochi \<and>
         Route it = build_result demo_planner pth g' r) \<and>
     route it = [''Moscow'', ''Sochi''] \<and> refuel_stops it = [''Moscow''] \<and> refuel_count it = 0"
proof -
  obtain k1 where k1: "haversine_distance spb sochi = Inr k1" "673 \<le> k1"
    using demo_hav_spb by blast
  obtain k2 where k2: "haversine_distance kazan sochi = Inr k2" "589 \<le> k2"
    using demo_hav_kazan by blast
  obtain x y b where b: "entry_lt y x = Inr b"
    using demo_first_turn [OF k1 k2, of 0] by blast
  define v :: visited where "v = Map.empty"
  let ?it = "\<lparr>route = [''Moscow'', ''Sochi''], total_time = 21 / 10, refuel_stops = [''Moscow''],
            total_distance = 1360, refuel_count = 0\<rparr>"
  let ?cfg = "([(21 / 10, 21 / 10, sochi, 11594, [moscow, sochi], 0), x, y], v :: visited)"
  have st: "search_step demo_planner sochi ?cfg = Inr (Inl (Route ?it))"
    using demo_second_turn [OF b, of v] by (simp add: demo_build_result)
  from itinerary_construction [of demo_planner "[moscow, sochi]" "21 / 10" 0 sochi ?cfg ?it] st
  have "\<exists>f g' c fu pth r os1.
         heappop entry_lt [(21 / 10, 21 / 10, sochi, 11594, [moscow, sochi], 0), x, y] =
           Inr ((f, g', c, fu, pth, r), os1) \<and> city_eq c sochi \<and>
         Route ?it = build_result demo_planner pth g' r"
    by simp
  with st show ?thesis by (intro exI [of _ x] exI [of _ y] exI [of _ v] exI [of _ ?it]) simp
qed

section \<open>The frontier invariants on the demonstration run\<close>

theorem frontier_fuel_nonneg_witness:
  "0 \<le> tank_capacity (plane demo_planner) \<and>
   (\<exists>cfg. reachable demo_planner moscow sochi cfg \<and>
      (21 / 10, 21 / 10, sochi, 11594, [moscow, sochi], 0) \<in> set (fst cfg) \<and>
      (\<forall>(f, g, c, fu, pth, r) \<in> set (fst cfg). 0 \<le> fu)) \<and>
   calculate_edge_time_and_fuel (plane demo_planner)
     (Edge_init moscow sochi 1360 True False False) 16000 = Inr (Finite (21 / 10), 4406) \<and>
   (0::int) \<le> 16000 - 4406"
proof -
  have cap: "0 \<le> tank_capacity (plane demo_planner)" using demo_well_formed by simp
  obtain x y v where
    r: "reachable demo_planner moscow sochi
          ([(21 / 10, 21 / 10, sochi, 11594, [moscow, sochi], 0), x, y], v)"
    using demo_reachable by blast
  have c: "calculate_edge_time_and_fuel (plane demo_planner)
     (Edge_init moscow sochi 1360 True False False) 16000 = Inr (Finite (21 / 10), 4406)"
    by (simp add: demo_planner_fields demo_cost_sochi)
  from frontier_fuel_nonneg [OF cap r] cap r c show ?thesis
    by (intro conjI exI [of _ "([(21 / 10, 21 / 10, sochi, 11594, [moscow, sochi], 0), x, y], v)"])
      simp_all
qed


theorem refuel_on_arrival_witness:
  "has_fuel spb \<and> (16000::int) - 1579 < tank_capacity (plane demo_planner) \<and>
   arrive (plane demo_planner) spb 16000 0 0 (4 / 5) 1579 = (13 / 10, 16000, 1) \<and>
   \<not> has_fuel sochi \<and>
   arrive (plane demo_planner) sochi 16000 0 0 (21 / 10) 4406 = (21 / 10, 11594, 0) \<and>
   list_all (\<lambda>e. 0 \<le> distance_km e) (edges (graph demo_planner)) \<and>
   0 \<le> fuel_consumption (plane demo_planner) \<and>
   (\<exists>cfg. reachable demo_planner moscow sochi cfg \<and>
      (21 / 10, 21 / 10, sochi, 11594, [moscow, sochi], 0) \<in> set (fst cfg) \<and>
      (\<forall>(f, g, c, fu, pth, r) \<in> set (fst cfg). fu \<le> tank_capacity (plane demo_planner))) \<and>
   (\<exists>os'. expand_edge demo_planner sochi (0, 0, moscow, 16000, [moscow], 0)
        (Edge_init moscow spb 650 False True False) ([], Map.empty((''Moscow'', 16000) \<mapsto> 0)) =
        Inr (os', (Map.empty((''Moscow'', 16000) \<mapsto> 0))((''St Petersburg'', 16000) \<mapsto> 13 / 10)) \<and>
      os' \<noteq> [] \<and>
      (\<forall>x\<in>set os'. \<exists>h. x = (0 + 4 / 5 + 0.5 + h, 0 + 4 / 5 + 0.5, spb,
                                 tank_capacity (plane demo_planner), [moscow] @ [spb], 0 + 1)))"
proof -
  have wf: "(\<forall>e\<in>set (edges (graph demo_planner)). 0 \<le> distance_km e) \<and>
    0 \<le> fuel_consumption (plane demo_planner)"
    using demo_well_formed by simp
  obtain x y v where
    r: "reachable demo_planner moscow sochi
          ([(21 / 10, 21 / 10, sochi, 11594, [moscow, sochi], 0), x, y], v)"
    using demo_reachable by blast
  let ?cfg = "([(21 / 10, 21 / 10, sochi, 11594, [moscow, sochi], 0), x, y], v)"
  obtain k1 where k1: "haversine_distance spb sochi = Inr k1"
    using demo_hav_spb by blast
  let ?v0 = "Map.empty((''Moscow'', 16000::int) \<mapsto> 0::real)"
  let ?os' = "[(13 / 10 + of_int k1 / 841, 13 / 10, spb, 16000, [moscow, spb], 1)] :: entry list"
  note ex = demo_expand_spb [OF k1, of 0]
  have fuel: "has_fuel spb \<and> (16000::int) - 1579 < tank_capacity (plane demo_planner)"
    by (simp add: demo_city_fields demo_planner_fields)
  have nofuel: "\<not> (has_fuel sochi \<and> (16000::int) - 4406 < tank_capacity (plane demo_planner))"
    by (simp add: demo_city_fields)
  have other: "get_other_city (Edge_init moscow spb 650 False True False) moscow = Inr spb"
    by (rule demo_other)
  have cost: "calculate_edge_time_and_fuel (plane demo_planner)
      (Edge_init moscow spb 650 False True False) 16000 = Inr (Finite (4 / 5), 1579)"
    by (simp add: demo_planner_fields demo_cost_spb)
  note t1 = refuel_on_arrival [of spb 16000 1579 demo_planner 0 0 "4 / 5" sochi 0 moscow "[moscow]"
      "Edge_init moscow spb 650 False True False" "[]" ?v0 ?os'
      "?v0((''St Petersburg'', 16000) \<mapsto> 13 / 10)" moscow ?cfg]
  note t2 = refuel_on_arrival [of sochi 16000 4406 demo_planner 0 0 "21 / 10" sochi 0 moscow "[moscow]"
      "Edge_init moscow spb 650 False True False" "[]" ?v0 ?os'
      "?v0((''St Petersburg'', 16000) \<mapsto> 13 / 10)" moscow ?cfg]
  have a1: "arrive (plane demo_planner) spb 16000 0 0 (4 / 5) 1579 = (13 / 10, 16000, 1)"
    using t1 fuel by (simp add: demo_planner_fields)
  have a2: "arrive (plane demo_planner) sochi 16000 0 0 (21 / 10) 4406 = (21 / 10, 11594, 0)"
    using t2 nofuel by simp
  have inv: "\<forall>(f, g, c, fu, pth, r) \<in> set (fst ?cfg). fu \<le> tank_capacity (plane demo_planner)"
    using t1 wf r by blast
  have adm: "\<forall>x\<in>set ?os'. \<exists>h. x = (0 + 4 / 5 + 0.5 + h, 0 + 4 / 5 + 0.5, spb,
                                 tank_capacity (plane demo_planner), [moscow] @ [spb], 0 + 1)"
    using t1 ex other cost fuel by simp
  have wf': "list_all (\<lambda>e. 0 \<le> distance_km e) (edges (graph demo_planner))"
    using wf by (simp add: list_all_iff)
  show ?thesis
    using a1 a2 wf wf' fuel nofuel r inv adm ex
    by (intro conjI exI [of _ ?cfg] exI [of _ ?os']) simp_all
qed

end
